theory Spec2Isabelle
  imports Complex_Main "HOL-Library.Multiset"
begin

section \<open>Conventions of the embedding\<close>

text \<open>
  The repository has two programs: \<^verbatim>\<open>backend/main.py\<close>, a camera polling loop that counts
  two objects by multi-scale template matching, and \<^verbatim>\<open>backend/optimizer.py\<close>, a Flask
  service with a greedy route optimiser and an emission calculator.

  In \<^verbatim>\<open>main.py\<close> and in the manual calculator of \<^verbatim>\<open>optimizer.py\<close>, Python \<^verbatim>\<open>float\<close>
  values (times, scores, scale factors, the numbers of a request) are embedded as
  \<^typ>\<open>real\<close>, with exact arithmetic. The route optimiser of \<^verbatim>\<open>optimizer.py\<close> squares,
  adds and compares the coordinates it is sent, and there the rounding, the overflow and
  the infinities of floats decide what the program does: its arithmetic is a parameter
  of the model (section ``Python's float arithmetic''). Python \<^verbatim>\<open>int\<close> values are
  \<^typ>\<open>int\<close>. An exception that leaves a function is the \<open>Inl\<close> branch of a sum.
\<close>

unbundle bit_operations_syntax

datatype py_error =
    AttributeError | TypeError | ValueError | CvError | RequestException
  | ZeroDivisionError | OverflowError

section \<open>main.py: images and the OpenCV calls\<close>

text \<open>
  A single-channel image is a numpy array: its shape (rows, columns) and its pixels.
\<close>

record image =
  shape0 :: nat
  shape1 :: nat
  pixels :: "nat list"

text \<open>
  The OpenCV functions the program calls are not code of the repository; they are the
  fields of a record that every function of the model takes.
  \<^item> \<open>imread path\<close> is \<^verbatim>\<open>cv2.imread(path, 0)\<close>: \<open>None\<close> when the file cannot be read;
  \<^item> \<open>resize img fx fy\<close> is \<^verbatim>\<open>cv2.resize(img, (0,0), fx=fx, fy=fy)\<close>, which raises when the
    scaled size is empty;
  \<^item> \<open>matchTemplate img templ\<close> is \<^verbatim>\<open>cv2.matchTemplate(img, templ, cv2.TM_CCOEFF_NORMED)\<close>;
  \<^item> \<open>minMaxLoc res\<close> is \<^verbatim>\<open>cv2.minMaxLoc(res)\<close>: (min_val, max_val, min_loc, max_loc).
\<close>

record 'r cv2 =
  imread :: "string \<Rightarrow> image option"
  resize :: "image \<Rightarrow> real \<Rightarrow> real \<Rightarrow> py_error + image"
  matchTemplate :: "image \<Rightarrow> image \<Rightarrow> py_error + 'r"
  minMaxLoc :: "'r \<Rightarrow> real \<times> real \<times> (int \<times> int) \<times> (int \<times> int)"

definition THRESHOLD :: real where
  "THRESHOLD = 0.65"

definition COOLDOWN_TIME :: real where
  "COOLDOWN_TIME = 2"

text \<open>
  \<open>load_and_prep\<close> returns the template (\<open>None\<close> when the file cannot be read) and the
  lines it printed.
\<close>

definition load_and_prep :: "'r cv2 \<Rightarrow> string \<Rightarrow> (py_error + image option) \<times> string list" where
  "load_and_prep cv path =
     (case imread cv path of
        None \<Rightarrow> (Inr None, [''Error: Could not find '' @ path])
      | Some img \<Rightarrow>
          (let height = shape0 img; width = shape1 img in
           if width > 200 then
             (let scale = 200 / real width in
              case resize cv img scale scale of
                Inl e \<Rightarrow> (Inl e, [])
              | Inr img' \<Rightarrow> (Inr (Some img'), []))
           else (Inr (Some img), [])))"

section \<open>main.py: the multi-scale matcher\<close>

text \<open>
  \<^verbatim>\<open>np.linspace(start, stop, num)\<close>: \<open>num\<close> samples \<open>start + i * step\<close> with
  \<open>step = (stop - start) / (num - 1)\<close>, the last one set to \<open>stop\<close>.
\<close>

definition linspace :: "real \<Rightarrow> real \<Rightarrow> nat \<Rightarrow> real list" where
  "linspace start stop num =
     (let step = (stop - start) / real (num - 1);
          y = map (\<lambda>i. real i * step + start) [0..<num]
      in if num > 1 then y[num - 1 := stop] else y)"

type_synonym match = "real \<times> (int \<times> int) \<times> real"

text \<open>
  One pass of the body of the \<^verbatim>\<open>for scale\<close> loop up to \<^verbatim>\<open>minMaxLoc\<close>: \<open>Inr None\<close> when
  the scale is skipped by \<^verbatim>\<open>continue\<close>, else the score and location at that scale.
\<close>

definition try_scale ::
  "'r cv2 \<Rightarrow> image \<Rightarrow> image \<Rightarrow> real \<Rightarrow> py_error + (real \<times> (int \<times> int)) option" where
  "try_scale cv frame_gray template scale =
     (let t_h = shape0 template; t_w = shape1 template in
      case resize cv frame_gray scale scale of
        Inl e \<Rightarrow> Inl e
      | Inr resized \<Rightarrow>
          if shape0 resized < t_h \<or> shape1 resized < t_w then Inr None
          else
            (case matchTemplate cv resized template of
               Inl e \<Rightarrow> Inl e
             | Inr res \<Rightarrow>
                 (case minMaxLoc cv res of
                    (min_val, max_val, min_loc, max_loc) \<Rightarrow> Inr (Some (max_val, max_loc)))))"

text \<open>The \<^verbatim>\<open>for scale\<close> loop, with \<^verbatim>\<open>found\<close> as it stands before the scales left.\<close>

fun find_match_loop ::
  "'r cv2 \<Rightarrow> image \<Rightarrow> image \<Rightarrow> real list \<Rightarrow> match option \<Rightarrow> py_error + match option" where
  "find_match_loop cv frame_gray template [] found = Inr found"
| "find_match_loop cv frame_gray template (scale # scales) found =
     (case try_scale cv frame_gray template scale of
        Inl e \<Rightarrow> Inl e
      | Inr None \<Rightarrow> find_match_loop cv frame_gray template scales found
      | Inr (Some (max_val, max_loc)) \<Rightarrow>
          if found = None \<or> max_val > fst (the found)
          then find_match_loop cv frame_gray template scales (Some (max_val, max_loc, scale))
          else find_match_loop cv frame_gray template scales found)"

text \<open>
  \<open>find_match\<close>. The template is what \<open>load_and_prep\<close> returned: on \<open>None\<close> the first
  statement, \<^verbatim>\<open>template.shape[:2]\<close>, raises AttributeError.
\<close>

definition find_match :: "'r cv2 \<Rightarrow> image \<Rightarrow> image option \<Rightarrow> py_error + match option" where
  "find_match cv frame_gray template =
     (case template of
        None \<Rightarrow> Inl AttributeError
      | Some t \<Rightarrow> find_match_loop cv frame_gray t (linspace 0.5 1.5 5) None)"

section \<open>main.py: the counters and the polling loop\<close>

datatype label = ObjectA | ObjectB

text \<open>
  What an iteration shows: a line \<^verbatim>\<open>Detected Object ...! Total: n\<close>, a rectangle drawn on
  the frame (its two corners), the window shown with the two counts overlaid, and the line
  of the exception handler (followed by \<^verbatim>\<open>time.sleep(2)\<close>).
\<close>

datatype event =
    Detected label int
  | Rectangle label "int \<times> int" "int \<times> int"
  | Shown int int
  | Connection_error py_error

text \<open>The globals of the loop, and what it has shown so far.\<close>

record tracker =
  count_a :: int
  count_b :: int
  last_seen_a :: real
  last_seen_b :: real
  shown :: "event list"

definition initial :: tracker where
  "initial = \<lparr>count_a = 0, count_b = 0, last_seen_a = 0, last_seen_b = 0, shown = []\<rparr>"

text \<open>
  What one iteration reads from outside: the grayscale frame that the fetch, the decoding
  and \<^verbatim>\<open>cv2.cvtColor\<close> give (or the exception one of them raises), \<^verbatim>\<open>time.time()\<close>, and
  the key \<^verbatim>\<open>cv2.waitKey(1)\<close> returns.
\<close>

record tick =
  gray :: "py_error + image"
  current_time :: real
  waitKey :: int

text \<open>
  Step 2 of the iteration. The result says whether an exception left the step, with the
  globals as the step left them.
\<close>

definition check_object_a ::
  "'r cv2 \<Rightarrow> image option \<Rightarrow> image \<Rightarrow> real \<Rightarrow> tracker \<Rightarrow> py_error option \<times> tracker" where
  "check_object_a cv template_a g now st =
     (case find_match cv g template_a of
        Inl e \<Rightarrow> (Some e, st)
      | Inr None \<Rightarrow> (None, st)
      | Inr (Some (max_val, max_loc, scale)) \<Rightarrow>
          if max_val > THRESHOLD then
            (let st1 = (if now - last_seen_a st > COOLDOWN_TIME
                        then st\<lparr>count_a := count_a st + 1, last_seen_a := now,
                                shown := shown st @ [Detected ObjectA (count_a st + 1)]\<rparr>
                        else st)
             in case template_a of
                  None \<Rightarrow> (Some AttributeError, st1)
                | Some t \<Rightarrow>
                    (None, st1\<lparr>shown := shown st1 @
                       [Rectangle ObjectA max_loc
                          (fst max_loc + int (shape1 t), snd max_loc + int (shape0 t))]\<rparr>))
          else (None, st))"

text \<open>Step 3 of the iteration, the same for object B.\<close>

definition check_object_b ::
  "'r cv2 \<Rightarrow> image option \<Rightarrow> image \<Rightarrow> real \<Rightarrow> tracker \<Rightarrow> py_error option \<times> tracker" where
  "check_object_b cv template_b g now st =
     (case find_match cv g template_b of
        Inl e \<Rightarrow> (Some e, st)
      | Inr None \<Rightarrow> (None, st)
      | Inr (Some (max_val, max_loc, scale)) \<Rightarrow>
          if max_val > THRESHOLD then
            (let st1 = (if now - last_seen_b st > COOLDOWN_TIME
                        then st\<lparr>count_b := count_b st + 1, last_seen_b := now,
                                shown := shown st @ [Detected ObjectB (count_b st + 1)]\<rparr>
                        else st)
             in case template_b of
                  None \<Rightarrow> (Some AttributeError, st1)
                | Some t \<Rightarrow>
                    (None, st1\<lparr>shown := shown st1 @
                       [Rectangle ObjectB max_loc
                          (fst max_loc + int (shape1 t), snd max_loc + int (shape0 t))]\<rparr>))
          else (None, st))"

text \<open>The \<^verbatim>\<open>except Exception\<close> clause.\<close>

definition except_clause :: "py_error \<Rightarrow> tracker \<Rightarrow> tracker" where
  "except_clause e st = st\<lparr>shown := shown st @ [Connection_error e]\<rparr>"

text \<open>The \<^verbatim>\<open>try\<close> statement of one iteration.\<close>

definition loop_body ::
  "'r cv2 \<Rightarrow> image option \<Rightarrow> image option \<Rightarrow> tracker \<Rightarrow> tick \<Rightarrow> tracker" where
  "loop_body cv template_a template_b st inp =
     (case gray inp of
        Inl e \<Rightarrow> except_clause e st
      | Inr g \<Rightarrow>
          (case check_object_a cv template_a g (current_time inp) st of
             (Some e, st1) \<Rightarrow> except_clause e st1
           | (None, st1) \<Rightarrow>
               (case check_object_b cv template_b g (current_time inp) st1 of
                  (Some e, st2) \<Rightarrow> except_clause e st2
                | (None, st2) \<Rightarrow>
                    st2\<lparr>shown := shown st2 @ [Shown (count_a st2) (count_b st2)]\<rparr>)))"

text \<open>
  The \<^verbatim>\<open>while True\<close> loop over the inputs of its iterations; it ends after the iteration
  whose key is \<^verbatim>\<open>q\<close> (\<^verbatim>\<open>cv2.waitKey(1) & 0xFF == ord('q')\<close>), or when the inputs observed
  so far are used up.
\<close>

fun main_loop ::
  "'r cv2 \<Rightarrow> image option \<Rightarrow> image option \<Rightarrow> tracker \<Rightarrow> tick list \<Rightarrow> tracker" where
  "main_loop cv template_a template_b st [] = st"
| "main_loop cv template_a template_b st (inp # inps) =
     (let st' = loop_body cv template_a template_b st inp in
      if (waitKey inp AND 255) = 113 then st'
      else main_loop cv template_a template_b st' inps)"

section \<open>main.py: a stand-in for OpenCV and the camera\<close>

text \<open>
  Concrete inputs on which the program is evaluated below. The pixels play no part: the
  stand-in scales the shape of a frame (rounding down), matches every template at (0, 0),
  and scores 0.9 on a resized frame of at least 4 rows and 0.5 on a smaller one. Only
  \<^verbatim>\<open>objectB.png\<close> can be read.
\<close>

definition templ3 :: image where
  "templ3 = \<lparr>shape0 = 3, shape1 = 3, pixels = []\<rparr>"

definition frame4 :: image where
  "frame4 = \<lparr>shape0 = 4, shape1 = 4, pixels = []\<rparr>"

definition frame1 :: image where
  "frame1 = \<lparr>shape0 = 1, shape1 = 1, pixels = []\<rparr>"

definition stand_in :: "image cv2" where
  "stand_in =
     \<lparr>imread = (\<lambda>path. if path = ''objectB.png'' then Some templ3 else None),
      resize = (\<lambda>img fx fy.
        Inr \<lparr>shape0 = nat \<lfloor>fy * real (shape0 img)\<rfloor>, shape1 = nat \<lfloor>fx * real (shape1 img)\<rfloor>,
             pixels = pixels img\<rparr>),
      matchTemplate = (\<lambda>img templ. Inr img),
      minMaxLoc = (\<lambda>res. (0, if 4 \<le> shape0 res then 0.9 else 0.5, (0, 0), (0, 0)))\<rparr>"

text \<open>
  The same frame \<open>g\<close> fetched every 0.5 s for 10 s from the time \<open>t0\<close> on: 20 iterations,
  at \<open>t0\<close>, \<open>t0 + 0.5\<close>, ..., \<open>t0 + 9.5\<close>, each with the key \<open>k\<close>.
\<close>

definition half_second_ticks :: "image \<Rightarrow> int \<Rightarrow> real \<Rightarrow> tick list" where
  "half_second_ticks g k t0 =
     map (\<lambda>n. \<lparr>gray = Inr g, current_time = t0 + real n / 2, waitKey = k\<rparr>) [0..<20]"

section \<open>optimizer.py: JSON request bodies\<close>

text \<open>
  A decoded JSON body, as \<^verbatim>\<open>request.json\<close> gives it. An object is the list of its items;
  a key is looked up with \<^const>\<open>map_of\<close>.
\<close>

datatype json =
    JNull
  | JBool bool
  | JNum real
  | JStr string
  | JArr "json list"
  | JObj "(string \<times> json) list"

text \<open>Python truthiness, as \<^verbatim>\<open>request.json or {}\<close> tests it.\<close>

fun truthy :: "json \<Rightarrow> bool" where
  "truthy JNull = False"
| "truthy (JBool b) = b"
| "truthy (JNum x) = (x \<noteq> 0)"
| "truthy (JStr s) = (s \<noteq> [])"
| "truthy (JArr xs) = (xs \<noteq> [])"
| "truthy (JObj kvs) = (kvs \<noteq> [])"

text \<open>\<^verbatim>\<open>payload.get(key, default)\<close>: only a dict has the method.\<close>

fun py_get :: "json \<Rightarrow> string \<Rightarrow> json \<Rightarrow> py_error + json" where
  "py_get (JObj kvs) k dflt = Inr (case map_of kvs k of None \<Rightarrow> dflt | Some v \<Rightarrow> v)"
| "py_get _ k dflt = Inl AttributeError"

text \<open>
  \<^verbatim>\<open>float(v)\<close>. A number is converted, a bool is 1.0 or 0.0, \<^verbatim>\<open>None\<close>, a list and a dict
  raise TypeError. A string is parsed by Python's own grammar for float literals, which is
  not code of the repository: it is the parameter \<open>str_float\<close>, \<open>None\<close> where Python
  raises ValueError.
\<close>

fun py_float :: "(string \<Rightarrow> real option) \<Rightarrow> json \<Rightarrow> py_error + real" where
  "py_float str_float (JNum x) = Inr x"
| "py_float str_float (JBool b) = Inr (if b then 1 else 0)"
| "py_float str_float (JStr s) = (case str_float s of None \<Rightarrow> Inl ValueError | Some x \<Rightarrow> Inr x)"
| "py_float str_float JNull = Inl TypeError"
| "py_float str_float (JArr xs) = Inl TypeError"
| "py_float str_float (JObj kvs) = Inl TypeError"

section \<open>optimizer.py: Python's float arithmetic\<close>

text \<open>
  The route optimiser computes with Python floats: its results are rounded, a square can
  overflow (\<^verbatim>\<open>x ** 2\<close> raises OverflowError), a sum can be infinite or NaN, and the order
  of two rounded distances decides which location is visited next. The arithmetic is not
  code of the repository: it is a parameter of the model, a record of the operations the
  source uses, over a type \<open>'f\<close> of floats.
  \<^item> \<open>f_lit c\<close> is the float that the decimal literal \<open>c\<close> of the source denotes;
  \<^item> \<open>f_add\<close>, \<open>f_sub\<close>, \<open>f_mul\<close> are \<^verbatim>\<open>+\<close>, \<^verbatim>\<open>-\<close>, \<^verbatim>\<open>*\<close>, which never raise;
  \<^item> \<open>f_div\<close> is \<^verbatim>\<open>/\<close>, which raises ZeroDivisionError;
  \<^item> \<open>f_pow2\<close> is \<^verbatim>\<open>x ** 2\<close>, which raises OverflowError;
  \<^item> \<open>f_sqrt\<close> is \<^verbatim>\<open>math.sqrt\<close>, which raises ValueError;
  \<^item> \<open>f_less x y\<close> is \<^verbatim>\<open>x < y\<close>, and \<^verbatim>\<open>y > x\<close>.
\<close>

record 'f arith =
  f_lit :: "real \<Rightarrow> 'f"
  f_add :: "'f \<Rightarrow> 'f \<Rightarrow> 'f"
  f_sub :: "'f \<Rightarrow> 'f \<Rightarrow> 'f"
  f_mul :: "'f \<Rightarrow> 'f \<Rightarrow> 'f"
  f_div :: "'f \<Rightarrow> 'f \<Rightarrow> py_error + 'f"
  f_pow2 :: "'f \<Rightarrow> py_error + 'f"
  f_sqrt :: "'f \<Rightarrow> py_error + 'f"
  f_less :: "'f \<Rightarrow> 'f \<Rightarrow> bool"

text \<open>
  What the theorems below use of the arithmetic, all of it true of Python's floats, NaN
  and the infinities included: \<^verbatim>\<open><\<close> is irreflexive and transitive, and a division raises
  only for a divisor that is zero, which neither 1000.0 nor a float greater than 0.0 is.
\<close>

definition float_laws :: "'f arith \<Rightarrow> bool" where
  "float_laws fl \<longleftrightarrow>
     (\<forall>x. \<not> f_less fl x x) \<and>
     (\<forall>x y z. f_less fl x y \<longrightarrow> f_less fl y z \<longrightarrow> f_less fl x z) \<and>
     (\<forall>x. \<exists>y. f_div fl x (f_lit fl 1000) = Inr y) \<and>
     (\<forall>x y. f_less fl (f_lit fl 0) y \<longrightarrow> (\<exists>z. f_div fl x y = Inr z))"

text \<open>
  Two arithmetics on which the program is evaluated. \<open>exact\<close> is the arithmetic of the
  real numbers, with nothing rounded and nothing out of range.
\<close>

definition exact :: "real arith" where
  "exact =
     \<lparr>f_lit = (\<lambda>c. c),
      f_add = (\<lambda>x y. x + y),
      f_sub = (\<lambda>x y. x - y),
      f_mul = (\<lambda>x y. x * y),
      f_div = (\<lambda>x y. if y = 0 then Inl ZeroDivisionError else Inr (x / y)),
      f_pow2 = (\<lambda>x. Inr (x\<^sup>2)),
      f_sqrt = (\<lambda>x. if x < 0 then Inl ValueError else Inr (sqrt x)),
      f_less = (\<lambda>x y. x < y)\<rparr>"

text \<open>
  \<open>unrounded\<close> is that arithmetic with the range of floats: a finite value \<open>Fin r\<close>, the two
  infinities and NaN. A finite result is never rounded; a result of \<^verbatim>\<open>+\<close>, \<^verbatim>\<open>-\<close>, \<^verbatim>\<open>*\<close>, \<^verbatim>\<open>/\<close>
  from \<open>2 ^ 1024\<close> on, above the largest float, is an infinity (\<open>fin\<close>), and such a result
  of \<^verbatim>\<open>x ** 2\<close> raises OverflowError; \<^verbatim>\<open>inf - inf\<close>, \<^verbatim>\<open>0 * inf\<close>, \<^verbatim>\<open>inf / inf\<close> and every
  operation on NaN give NaN; \<^verbatim>\<open>math.sqrt\<close> raises ValueError below 0 and keeps \<^verbatim>\<open>inf\<close> and
  NaN; a comparison with NaN is false.
\<close>

datatype xfloat = Fin real | PInf | NInf | NaN

definition fin :: "real \<Rightarrow> xfloat" where
  "fin r = (if 2 ^ 1024 \<le> r then PInf else if r \<le> - (2 ^ 1024) then NInf else Fin r)"

fun x_neg :: "xfloat \<Rightarrow> xfloat" where
  "x_neg (Fin a) = Fin (- a)"
| "x_neg PInf = NInf"
| "x_neg NInf = PInf"
| "x_neg NaN = NaN"

fun x_add :: "xfloat \<Rightarrow> xfloat \<Rightarrow> xfloat" where
  "x_add NaN y = NaN"
| "x_add (Fin a) NaN = NaN"
| "x_add PInf NaN = NaN"
| "x_add NInf NaN = NaN"
| "x_add (Fin a) (Fin b) = fin (a + b)"
| "x_add PInf NInf = NaN"
| "x_add NInf PInf = NaN"
| "x_add PInf (Fin b) = PInf"
| "x_add PInf PInf = PInf"
| "x_add (Fin a) PInf = PInf"
| "x_add NInf (Fin b) = NInf"
| "x_add NInf NInf = NInf"
| "x_add (Fin a) NInf = NInf"

fun x_sign :: "xfloat \<Rightarrow> int" where
  "x_sign (Fin a) = (if a < 0 then - 1 else if a = 0 then 0 else 1)"
| "x_sign PInf = 1"
| "x_sign NInf = - 1"
| "x_sign NaN = 0"

fun x_mul :: "xfloat \<Rightarrow> xfloat \<Rightarrow> xfloat" where
  "x_mul NaN y = NaN"
| "x_mul (Fin a) NaN = NaN"
| "x_mul PInf NaN = NaN"
| "x_mul NInf NaN = NaN"
| "x_mul (Fin a) (Fin b) = fin (a * b)"
| "x_mul x y =
     (if x_sign x * x_sign y = 0 then NaN else if x_sign x * x_sign y = 1 then PInf else NInf)"

fun x_div :: "xfloat \<Rightarrow> xfloat \<Rightarrow> py_error + xfloat" where
  "x_div x (Fin b) =
     (if b = 0 then Inl ZeroDivisionError
      else case x of
        Fin a \<Rightarrow> Inr (fin (a / b))
      | NaN \<Rightarrow> Inr NaN
      | _ \<Rightarrow> Inr (if x_sign x * x_sign (Fin b) = 1 then PInf else NInf))"
| "x_div x NaN = Inr NaN"
| "x_div (Fin a) PInf = Inr (Fin 0)"
| "x_div (Fin a) NInf = Inr (Fin 0)"
| "x_div x y = Inr NaN"

fun x_pow2 :: "xfloat \<Rightarrow> py_error + xfloat" where
  "x_pow2 (Fin a) = (if 2 ^ 1024 \<le> a\<^sup>2 then Inl OverflowError else Inr (Fin (a\<^sup>2)))"
| "x_pow2 PInf = Inr PInf"
| "x_pow2 NInf = Inr PInf"
| "x_pow2 NaN = Inr NaN"

fun x_sqrt :: "xfloat \<Rightarrow> py_error + xfloat" where
  "x_sqrt (Fin a) = (if a < 0 then Inl ValueError else Inr (Fin (sqrt a)))"
| "x_sqrt PInf = Inr PInf"
| "x_sqrt NInf = Inl ValueError"
| "x_sqrt NaN = Inr NaN"

fun x_less :: "xfloat \<Rightarrow> xfloat \<Rightarrow> bool" where
  "x_less (Fin a) (Fin b) \<longleftrightarrow> a < b"
| "x_less (Fin a) PInf \<longleftrightarrow> True"
| "x_less NInf (Fin b) \<longleftrightarrow> True"
| "x_less NInf PInf \<longleftrightarrow> True"
| "x_less x y \<longleftrightarrow> False"

definition unrounded :: "xfloat arith" where
  "unrounded =
     \<lparr>f_lit = fin,
      f_add = x_add,
      f_sub = (\<lambda>x y. x_add x (x_neg y)),
      f_mul = x_mul,
      f_div = x_div,
      f_pow2 = x_pow2,
      f_sqrt = x_sqrt,
      f_less = x_less\<rparr>"

section \<open>optimizer.py: emissions\<close>

definition EMISSION_FACTORS :: "(string \<times> real) list" where
  "EMISSION_FACTORS = [(''road'', 0.080), (''rail'', 0.020), (''air'', 0.500)]"

text \<open>
  \<^verbatim>\<open>EMISSION_FACTORS.get(mode, EMISSION_FACTORS['road'])\<close>. The mode is whatever the body
  held: a list or a dict is unhashable and raises TypeError, every other value that is not
  a key of the table takes the road factor.
\<close>

fun factor_of :: "json \<Rightarrow> py_error + real" where
  "factor_of (JStr m) =
     Inr (case map_of EMISSION_FACTORS m of
            None \<Rightarrow> the (map_of EMISSION_FACTORS ''road'')
          | Some f \<Rightarrow> f)"
| "factor_of (JArr xs) = Inl TypeError"
| "factor_of (JObj kvs) = Inl TypeError"
| "factor_of _ = Inr (the (map_of EMISSION_FACTORS ''road''))"

definition calculate_emissions :: "'f arith \<Rightarrow> 'f \<Rightarrow> 'f \<Rightarrow> json \<Rightarrow> py_error + 'f" where
  "calculate_emissions fl dist_km weight_kg mode =
     (case factor_of mode of
        Inl e \<Rightarrow> Inl e
      | Inr factor \<Rightarrow>
          (case f_div fl weight_kg (f_lit fl 1000) of
             Inl e \<Rightarrow> Inl e
           | Inr weight_tons \<Rightarrow>
               Inr (f_mul fl (f_mul fl dist_km weight_tons) (f_lit fl factor))))"

text \<open>
  The global \<^verbatim>\<open>current_counts\<close>, the only state of the service, and what a handler
  returns: an exception that leaves it (Flask answers with a server error), a reply with an
  error status and message (\<^verbatim>\<open>jsonify({"error": msg}), status\<close>), or its JSON result.
\<close>

type_synonym counts = "(string \<times> int) list"

definition current_counts :: counts where
  "current_counts = [(''a'', 0), (''b'', 0)]"

datatype 'r reply = Raised py_error | Rejected nat string | Ok 'r

definition get_counts :: "counts \<Rightarrow> counts reply \<times> counts" where
  "get_counts cc = (Ok cc, cc)"

record manual_response =
  emission_kg :: real
  baseline_kg :: real
  savings_kg :: real

text \<open>
  The handler of \<^verbatim>\<open>POST /calculate-manual\<close>. The numbers of its body are decimal numbers,
  and its one product is evaluated in the exact arithmetic.
\<close>

definition calculate_manual ::
  "(string \<Rightarrow> real option) \<Rightarrow> json \<Rightarrow> counts \<Rightarrow> manual_response reply \<times> counts" where
  "calculate_manual str_float body cc =
     (let payload = (if truthy body then body else JObj []) in
      (case py_get payload ''distance'' (JNum 0) of
         Inl e \<Rightarrow> (Raised e, cc)
       | Inr dv \<Rightarrow>
      (case py_float str_float dv of
         Inl e \<Rightarrow> (Raised e, cc)
       | Inr distance \<Rightarrow>
      (case py_get payload ''weight'' (JNum 0) of
         Inl e \<Rightarrow> (Raised e, cc)
       | Inr wv \<Rightarrow>
      (case py_float str_float wv of
         Inl e \<Rightarrow> (Raised e, cc)
       | Inr weight \<Rightarrow>
      (case py_get payload ''mode'' (JStr ''road'') of
         Inl e \<Rightarrow> (Raised e, cc)
       | Inr mode \<Rightarrow>
      (case calculate_emissions exact distance weight mode of
         Inl e \<Rightarrow> (Raised e, cc)
       | Inr emission \<Rightarrow>
      (case calculate_emissions exact distance weight (JStr ''air'') of
         Inl e \<Rightarrow> (Raised e, cc)
       | Inr air_emission \<Rightarrow>
          (Ok \<lparr>emission_kg = emission, baseline_kg = air_emission,
               savings_kg = max 0 (air_emission - emission)\<rparr>, cc)))))))))"

section \<open>optimizer.py: the route optimiser\<close>

text \<open>
  A location is a JSON object with the floats \<^verbatim>\<open>lat\<close> and \<^verbatim>\<open>lng\<close>; whatever else it holds
  is the record's extension, which the equality of \<^verbatim>\<open>unvisited.remove\<close> compares as well.
\<close>

record 'f location =
  lat :: 'f
  lng :: 'f

text \<open>
  \<open>get_dist\<close>: the two squares, left to right, their sum and its square root, each in
  the float arithmetic; the first exception that is raised leaves the function.
\<close>

definition get_dist ::
  "'f arith \<Rightarrow> ('f, 'a) location_scheme \<Rightarrow> ('f, 'a) location_scheme \<Rightarrow> py_error + 'f" where
  "get_dist fl p1 p2 =
     (case f_pow2 fl (f_sub fl (lat p1) (lat p2)) of
        Inl e \<Rightarrow> Inl e
      | Inr dlat2 \<Rightarrow>
          (case f_pow2 fl (f_sub fl (lng p1) (lng p2)) of
             Inl e \<Rightarrow> Inl e
           | Inr dlng2 \<Rightarrow> f_sqrt fl (f_add fl dlat2 dlng2)))"

text \<open>
  \<^verbatim>\<open>min(items, key=key)\<close>: Python calls \<open>key\<close> on every item in turn, the first one
  included, keeps the first item and replaces it only by one whose key is strictly
  smaller. On the empty list it raises ValueError.
\<close>

fun min_loop ::
  "('f \<Rightarrow> 'f \<Rightarrow> bool) \<Rightarrow> ('a \<Rightarrow> py_error + 'f) \<Rightarrow> 'a \<Rightarrow> 'f \<Rightarrow> 'a list \<Rightarrow> py_error + 'a" where
  "min_loop lt key best best_val [] = Inr best"
| "min_loop lt key best best_val (x # xs) =
     (case key x of
        Inl e \<Rightarrow> Inl e
      | Inr v \<Rightarrow>
          if lt v best_val then min_loop lt key x v xs
          else min_loop lt key best best_val xs)"

fun py_min :: "('f \<Rightarrow> 'f \<Rightarrow> bool) \<Rightarrow> ('a \<Rightarrow> py_error + 'f) \<Rightarrow> 'a list \<Rightarrow> py_error + 'a" where
  "py_min lt key [] = Inl ValueError"
| "py_min lt key (x # xs) =
     (case key x of Inl e \<Rightarrow> Inl e | Inr v \<Rightarrow> min_loop lt key x v xs)"

text \<open>A line of \<^verbatim>\<open>logs\<close>: the fixed first line, or the line of a leg with the latitude it prints.\<close>

datatype 'f log_line = Optimization_Started | Connected_to_nearest_node_at 'f

text \<open>The \<^verbatim>\<open>while unvisited\<close> loop.\<close>

function nearest_loop ::
  "'f arith \<Rightarrow> ('f, 'a) location_scheme \<Rightarrow> ('f, 'a) location_scheme list
   \<Rightarrow> ('f, 'a) location_scheme list \<Rightarrow> 'f log_line list
   \<Rightarrow> py_error + (('f, 'a) location_scheme list \<times> 'f log_line list)" where
  "nearest_loop fl current [] path lg = Inr (path, lg)"
| "nearest_loop fl current (u # us) path lg =
     (case py_min (f_less fl) (get_dist fl current) (u # us) of
        Inl e \<Rightarrow> Inl e
      | Inr nearest \<Rightarrow>
          nearest_loop fl nearest (remove1 nearest (u # us)) (path @ [nearest])
            (lg @ [Connected_to_nearest_node_at (lat nearest)]))"
  by pat_completeness auto
termination
proof (relation "measure (\<lambda>(fl, current, unvisited, path, lg). length unvisited)", goal_cases)
  case 1
  show ?case by simp
next
  case (2 fl current u us path lg x)
  have loop: "min_loop lt key b bv ys = Inr m \<Longrightarrow> m \<in> set (b # ys)"
    for lt key b bv ys m
    by (induction ys arbitrary: b bv) (auto split: sum.splits if_splits)
  from 2 have "x \<in> set (u # us)"
    by (auto split: sum.splits dest: loop)
  then have "length (remove1 x (u # us)) < length (u # us)"
    by (simp only: length_remove1) simp
  then show ?case
    by simp
qed

text \<open>
  The \<^verbatim>\<open>for i in range(len(path) - 1)\<close> loop that adds the legs up, with \<^verbatim>\<open>total_deg\<close> as
  it stands before the indices left.
\<close>

fun sum_legs ::
  "'f arith \<Rightarrow> ('f, 'a) location_scheme list \<Rightarrow> 'f \<Rightarrow> nat list \<Rightarrow> py_error + 'f" where
  "sum_legs fl path total_deg [] = Inr total_deg"
| "sum_legs fl path total_deg (i # is) =
     (case get_dist fl (path ! i) (path ! (i + 1)) of
        Inl e \<Rightarrow> Inl e
      | Inr d \<Rightarrow> sum_legs fl path (f_add fl total_deg d) is)"

definition total_degrees :: "'f arith \<Rightarrow> ('f, 'a) location_scheme list \<Rightarrow> py_error + 'f" where
  "total_degrees fl path = sum_legs fl path (f_lit fl 0) [0..<length path - 1]"

text \<open>\<^verbatim>\<open>max(x, y)\<close> of two floats: \<open>y\<close> when \<^verbatim>\<open>y > x\<close>, else \<open>x\<close>.\<close>

definition py_max :: "'f arith \<Rightarrow> 'f \<Rightarrow> 'f \<Rightarrow> 'f" where
  "py_max fl x y = (if f_less fl x y then y else x)"

record 'f stats =
  total_distance_km :: 'f
  optimized :: 'f
  baseline :: 'f
  saved :: 'f
  percent :: 'f

record ('f, 'a) optimize_response =
  optimized_route :: "('f, 'a) location_scheme list"
  logs :: "'f log_line list"
  stats :: "'f stats"

text \<open>
  The handler of \<^verbatim>\<open>POST /optimize\<close>. Its argument is \<^verbatim>\<open>data.get('locations')\<close>: \<open>None\<close>
  when the body has no such key, which the handler reads as the empty list.
\<close>

definition optimize_route ::
  "'f arith \<Rightarrow> ('f, 'a) location_scheme list option \<Rightarrow> counts
   \<Rightarrow> ('f, 'a) optimize_response reply \<times> counts" where
  "optimize_route fl data_locations cc =
     (let locations = (case data_locations of None \<Rightarrow> [] | Some ls \<Rightarrow> ls) in
      if length locations < 2 then (Rejected 400 ''Need at least 2 points'', cc)
      else
        (let unvisited = locations;
             current = hd unvisited
         in
         (case nearest_loop fl current (tl unvisited) [current] [Optimization_Started] of
            Inl e \<Rightarrow> (Raised e, cc)
          | Inr (path, lg) \<Rightarrow>
         (case total_degrees fl path of
            Inl e \<Rightarrow> (Raised e, cc)
          | Inr total_deg \<Rightarrow>
         (let total_km = f_mul fl total_deg (f_lit fl 111);
              default_weight_kg = f_lit fl 1000
          in
         (case calculate_emissions fl total_km default_weight_kg (JStr ''road'') of
            Inl e \<Rightarrow> (Raised e, cc)
          | Inr optimized_emission \<Rightarrow>
         (let baseline_km = f_mul fl total_km (f_lit fl 1.45) in
         (case calculate_emissions fl baseline_km default_weight_kg (JStr ''road'') of
            Inl e \<Rightarrow> (Raised e, cc)
          | Inr baseline_emission \<Rightarrow>
         (let saved_emission =
                py_max fl (f_lit fl 0) (f_sub fl baseline_emission optimized_emission)
          in
         (case (if f_less fl (f_lit fl 0) baseline_emission
                then (case f_div fl saved_emission baseline_emission of
                        Inl e \<Rightarrow> Inl e
                      | Inr ratio \<Rightarrow> Inr (f_mul fl ratio (f_lit fl 100)))
                else Inr (f_lit fl 0)) of
            Inl e \<Rightarrow> (Raised e, cc)
          | Inr reduction_pct \<Rightarrow>
          (Ok \<lparr>optimized_route = path, logs = lg,
               stats = \<lparr>total_distance_km = total_km, optimized = optimized_emission,
                         baseline = baseline_emission, saved = saved_emission,
                         percent = reduction_pct\<rparr>\<rparr>, cc)))))))))))"


section \<open>Properties of the multi-scale matcher\<close>

lemma scales: "linspace 0.5 1.5 5 = [0.5, 0.75, 1, 1.25, 1.5]"
  by (simp add: linspace_def Let_def upt_rec)

lemma try_scale_None:
  "try_scale cv f t s = Inr None \<longleftrightarrow>
     (\<exists>r. resize cv f s s = Inr r \<and> (shape0 r < shape0 t \<or> shape1 r < shape1 t))"
  by (auto simp: try_scale_def Let_def split: sum.splits prod.splits)

lemma try_scale_Some:
  "try_scale cv f t s = Inr (Some (v, loc)) \<longleftrightarrow>
     (\<exists>r res. resize cv f s s = Inr r \<and> shape0 t \<le> shape0 r \<and> shape1 t \<le> shape1 r \<and>
        matchTemplate cv r t = Inr res \<and>
        fst (snd (minMaxLoc cv res)) = v \<and> snd (snd (snd (minMaxLoc cv res))) = loc)"
  by (auto simp: try_scale_def Let_def split: sum.splits prod.splits)

lemma loop_None:
  "find_match_loop cv f t xs found = Inr None \<longleftrightarrow>
     found = None \<and> (\<forall>s\<in>set xs. try_scale cv f t s = Inr None)"
  by (induction xs arbitrary: found) (auto split: sum.splits option.splits)

lemma loop_total:
  "\<forall>s\<in>set xs. \<exists>x. try_scale cv f t s = Inr x \<Longrightarrow>
   \<exists>found'. find_match_loop cv f t xs found = Inr found'"
  by (induction xs arbitrary: found) (auto split: sum.splits option.splits)

lemma loop_Some:
  "find_match_loop cv f t xs found = Inr (Some (v, loc, s)) \<Longrightarrow>
   (found = Some (v, loc, s) \<and>
      (\<forall>s'\<in>set xs. \<forall>v' l'. try_scale cv f t s' = Inr (Some (v', l')) \<longrightarrow> v' \<le> v)) \<or>
   (\<exists>ys zs. xs = ys @ s # zs \<and> try_scale cv f t s = Inr (Some (v, loc)) \<and>
      (\<forall>v0 l0 s0. found = Some (v0, l0, s0) \<longrightarrow> v0 < v) \<and>
      (\<forall>s'\<in>set ys. \<forall>v' l'. try_scale cv f t s' = Inr (Some (v', l')) \<longrightarrow> v' < v) \<and>
      (\<forall>s'\<in>set zs. \<forall>v' l'. try_scale cv f t s' = Inr (Some (v', l')) \<longrightarrow> v' \<le> v))"
proof (induction xs arbitrary: found)
  case Nil
  then show ?case by simp
next
  case (Cons x xs)
  let ?P = "\<lambda>ys v. \<forall>s'\<in>set ys. \<forall>v' l'. try_scale cv f t s' = Inr (Some (v', l')) \<longrightarrow> v' < v"
  let ?Q = "\<lambda>zs v. \<forall>s'\<in>set zs. \<forall>v' l'. try_scale cv f t s' = Inr (Some (v', l')) \<longrightarrow> v' \<le> v"
  from Cons.prems obtain y where y: "try_scale cv f t x = Inr y"
    by (auto split: sum.splits)
  show ?case
  proof (cases y)
    case None
    with y Cons.prems have "find_match_loop cv f t xs found = Inr (Some (v, loc, s))"
      by simp
    from Cons.IH [OF this] show ?thesis
    proof
      assume "found = Some (v, loc, s) \<and> ?Q xs v"
      with y None show ?thesis by simp
    next
      assume "\<exists>ys zs. xs = ys @ s # zs \<and> try_scale cv f t s = Inr (Some (v, loc)) \<and>
        (\<forall>v0 l0 s0. found = Some (v0, l0, s0) \<longrightarrow> v0 < v) \<and> ?P ys v \<and> ?Q zs v"
      then obtain ys zs where h: "xs = ys @ s # zs" "try_scale cv f t s = Inr (Some (v, loc))"
        "\<forall>v0 l0 s0. found = Some (v0, l0, s0) \<longrightarrow> v0 < v" "?P ys v" "?Q zs v"
        by blast
      have "x # xs = (x # ys) @ s # zs" using h(1) by simp
      moreover have "?P (x # ys) v" using h(4) y None by simp
      ultimately show ?thesis using h(2,3,5) by blast
    qed
  next
    case (Some p)
    obtain vx lx where p: "p = (vx, lx)" by (cases p)
    show ?thesis
    proof (cases "found = None \<or> vx > fst (the found)")
      case True
      with y Some p Cons.prems
      have "find_match_loop cv f t xs (Some (vx, lx, x)) = Inr (Some (v, loc, s))"
        by simp
      from Cons.IH [OF this] show ?thesis
      proof
        assume a: "Some (vx, lx, x) = Some (v, loc, s) \<and> ?Q xs v"
        then have "x # xs = [] @ s # xs" by simp
        moreover have "try_scale cv f t s = Inr (Some (v, loc))" using a y Some p by simp
        moreover have "\<forall>v0 l0 s0. found = Some (v0, l0, s0) \<longrightarrow> v0 < v"
          using True a by auto
        ultimately show ?thesis using a by (metis empty_iff list.set(1))
      next
        assume "\<exists>ys zs. xs = ys @ s # zs \<and> try_scale cv f t s = Inr (Some (v, loc)) \<and>
          (\<forall>v0 l0 s0. Some (vx, lx, x) = Some (v0, l0, s0) \<longrightarrow> v0 < v) \<and> ?P ys v \<and> ?Q zs v"
        then obtain ys zs where h: "xs = ys @ s # zs" "try_scale cv f t s = Inr (Some (v, loc))"
          "vx < v" "?P ys v" "?Q zs v"
          by blast
        have "x # xs = (x # ys) @ s # zs" using h(1) by simp
        moreover have "?P (x # ys) v" using h(3,4) y Some p by simp
        moreover have "\<forall>v0 l0 s0. found = Some (v0, l0, s0) \<longrightarrow> v0 < v"
          using True h(3) by auto
        ultimately show ?thesis using h(2,5) by blast
      qed
    next
      case False
      then obtain v0 l0 s0 where f0: "found = Some (v0, l0, s0)" "vx \<le> v0"
        by (cases found) auto
      from False y Some p Cons.prems
      have "find_match_loop cv f t xs found = Inr (Some (v, loc, s))"
        by auto
      from Cons.IH [OF this] show ?thesis
      proof
        assume a: "found = Some (v, loc, s) \<and> ?Q xs v"
        with f0 y Some p have "?Q (x # xs) v" by simp
        with a show ?thesis by blast
      next
        assume "\<exists>ys zs. xs = ys @ s # zs \<and> try_scale cv f t s = Inr (Some (v, loc)) \<and>
          (\<forall>v0 l0 s0. found = Some (v0, l0, s0) \<longrightarrow> v0 < v) \<and> ?P ys v \<and> ?Q zs v"
        then obtain ys zs where h: "xs = ys @ s # zs" "try_scale cv f t s = Inr (Some (v, loc))"
          "\<forall>v0 l0 s0. found = Some (v0, l0, s0) \<longrightarrow> v0 < v" "?P ys v" "?Q zs v"
          by blast
        have "x # xs = (x # ys) @ s # zs" using h(1) by simp
        moreover have "vx < v" using h(3) f0 by auto
        then have "?P (x # ys) v" using h(4) y Some p by simp
        ultimately show ?thesis using h(2,3,5) by blast
      qed
    qed
  qed
qed

lemma find_match_Some:
  "find_match cv f (Some t) = find_match_loop cv f t [0.5, 0.75, 1, 1.25, 1.5] None"
  by (simp only: find_match_def option.case scales)

lemma find_match_frame4:
  "find_match stand_in frame4 (Some templ3) = Inr (Some (0.9, (0, 0), 1))"
  unfolding find_match_Some by (simp add: try_scale_def stand_in_def frame4_def templ3_def)

lemma find_match_frame1: "find_match stand_in frame1 (Some templ3) = Inr None"
  unfolding find_match_Some by (simp add: try_scale_def stand_in_def frame1_def templ3_def)

text \<open>
  Claim C2. \<open>find_match\<close> runs over the 5 scale factors 0.5, 0.75, 1.0, 1.25, 1.5. A triple
  (score, location, scale) that it returns is the maximum that \<^verbatim>\<open>minMaxLoc\<close> finds in the
  match of the template against the frame resized by that scale on both axes; no scale
  that was tried has a higher score, and every tried scale before it (a smaller one) has
  a strictly lower score, so that among equal scores the first scale wins. When no call
  raises and a scale is tried, a triple is returned. Scores are real numbers here: a NaN
  score is outside the model.
\<close>

theorem find_match_best_first:
  "linspace 0.5 1.5 5 = [0.5, 0.75, 1, 1.25, 1.5] \<and>
   (find_match cv f (Some t) = Inr (Some (v, loc, s)) \<longrightarrow>
      s \<in> set [0.5, 0.75, 1, 1.25, 1.5] \<and>
      (\<exists>r res. resize cv f s s = Inr r \<and> shape0 t \<le> shape0 r \<and> shape1 t \<le> shape1 r \<and>
         matchTemplate cv r t = Inr res \<and>
         fst (snd (minMaxLoc cv res)) = v \<and> snd (snd (snd (minMaxLoc cv res))) = loc) \<and>
      (\<forall>s'\<in>set [0.5, 0.75, 1, 1.25, 1.5]. \<forall>v' loc'.
         try_scale cv f t s' = Inr (Some (v', loc')) \<longrightarrow> v' \<le> v \<and> (s' < s \<longrightarrow> v' < v))) \<and>
   ((\<forall>s'\<in>set [0.5, 0.75, 1, 1.25, 1.5]. \<exists>x. try_scale cv f t s' = Inr x) \<and>
    (\<exists>s'\<in>set [0.5, 0.75, 1, 1.25, 1.5]. \<exists>x. try_scale cv f t s' = Inr (Some x)) \<longrightarrow>
      (\<exists>v loc s. find_match cv f (Some t) = Inr (Some (v, loc, s))))"
proof (intro conjI impI)
  show "linspace 0.5 1.5 5 = [0.5, 0.75, 1, 1.25, 1.5]" by (rule scales)
next
  let ?xs = "[0.5, 0.75, 1, 1.25, 1.5] :: real list"
  assume "find_match cv f (Some t) = Inr (Some (v, loc, s))"
  then have "find_match_loop cv f t ?xs None = Inr (Some (v, loc, s))"
    unfolding find_match_Some .
  from loop_Some [OF this] obtain ys zs where h: "?xs = ys @ s # zs"
    "try_scale cv f t s = Inr (Some (v, loc))"
    "\<forall>s'\<in>set ys. \<forall>v' l'. try_scale cv f t s' = Inr (Some (v', l')) \<longrightarrow> v' < v"
    "\<forall>s'\<in>set zs. \<forall>v' l'. try_scale cv f t s' = Inr (Some (v', l')) \<longrightarrow> v' \<le> v"
    by auto
  have "set ?xs = set (ys @ s # zs)" using h(1) by simp
  then show "s \<in> set ?xs" by simp
  show "\<exists>r res. resize cv f s s = Inr r \<and> shape0 t \<le> shape0 r \<and> shape1 t \<le> shape1 r \<and>
         matchTemplate cv r t = Inr res \<and>
         fst (snd (minMaxLoc cv res)) = v \<and> snd (snd (snd (minMaxLoc cv res))) = loc"
    using h(2) unfolding try_scale_Some .
  have "sorted_wrt (<) ?xs" by simp
  then have srt: "sorted_wrt (<) (ys @ s # zs)" unfolding h(1) .
  have before: "s' \<in> set ys" if "s' \<in> set ?xs" "s' < s" for s'
  proof -
    from that(1) have "s' \<in> set (ys @ s # zs)" unfolding h(1) .
    moreover have "\<forall>z\<in>set (s # zs). s \<le> z"
      using srt by (auto simp: sorted_wrt_append)
    ultimately show ?thesis using that(2) by auto
  qed
  show "\<forall>s'\<in>set ?xs. \<forall>v' loc'.
         try_scale cv f t s' = Inr (Some (v', loc')) \<longrightarrow> v' \<le> v \<and> (s' < s \<longrightarrow> v' < v)"
  proof (intro ballI allI impI conjI)
    fix s' v' loc'
    assume a: "s' \<in> set ?xs" "try_scale cv f t s' = Inr (Some (v', loc'))"
    from a(1) have "s' \<in> set ys \<or> s' = s \<or> s' \<in> set zs"
      unfolding h(1) by auto
    with a(2) h(2,3,4) show "v' \<le> v" by fastforce
    assume "s' < s"
    with before a(1) have "s' \<in> set ys" by blast
    with h(3) a(2) show "v' < v" by blast
  qed
next
  let ?xs = "[0.5, 0.75, 1, 1.25, 1.5] :: real list"
  assume a: "(\<forall>s'\<in>set ?xs. \<exists>x. try_scale cv f t s' = Inr x) \<and>
    (\<exists>s'\<in>set ?xs. \<exists>x. try_scale cv f t s' = Inr (Some x))"
  then obtain found where f: "find_match_loop cv f t ?xs None = Inr found"
    using loop_total by blast
  have "found \<noteq> None"
  proof
    assume "found = None"
    with f have "find_match_loop cv f t ?xs None = Inr None" by simp
    then have "\<forall>s\<in>set ?xs. try_scale cv f t s = Inr None"
      by (blast dest: loop_None [THEN iffD1])
    with a show False by fastforce
  qed
  then obtain v loc s where "found = Some (v, loc, s)"
    by (cases found) auto
  with f show "\<exists>v loc s. find_match cv f (Some t) = Inr (Some (v, loc, s))"
    unfolding find_match_Some by blast
qed

text \<open>
  The theorem at the 4 by 4 frame and the 3 by 3 template: the scale 0.5 is skipped, 0.75
  scores 0.5, and 1.0, 1.25 and 1.5 all score 0.9; the first of them, 1.0, is returned.
\<close>

theorem find_match_best_first_witness:
  "find_match stand_in frame4 (Some templ3) = Inr (Some (0.9, (0, 0), 1)) \<and>
   try_scale stand_in frame4 templ3 0.5 = Inr None \<and>
   try_scale stand_in frame4 templ3 0.75 = Inr (Some (0.5, (0, 0))) \<and>
   try_scale stand_in frame4 templ3 1 = Inr (Some (0.9, (0, 0))) \<and>
   try_scale stand_in frame4 templ3 1.25 = Inr (Some (0.9, (0, 0))) \<and>
   try_scale stand_in frame4 templ3 1.5 = Inr (Some (0.9, (0, 0)))"
proof -
  have ts: "try_scale stand_in frame4 templ3 0.5 = Inr None"
    "try_scale stand_in frame4 templ3 0.75 = Inr (Some (0.5, (0, 0)))"
    "try_scale stand_in frame4 templ3 1 = Inr (Some (0.9, (0, 0)))"
    "try_scale stand_in frame4 templ3 1.25 = Inr (Some (0.9, (0, 0)))"
    "try_scale stand_in frame4 templ3 1.5 = Inr (Some (0.9, (0, 0)))"
    by (simp_all add: try_scale_def stand_in_def frame4_def templ3_def)
  show ?thesis
    using find_match_best_first [of stand_in frame4 templ3 "0.9" "(0, 0)" 1]
      find_match_frame4 ts
    by simp
qed

text \<open>
  Claim C3. For a template that was loaded, \<open>find_match\<close> returns \<^verbatim>\<open>None\<close> exactly when at
  each of the 5 scales the resized frame has fewer rows or fewer columns than the
  template; a scale at which it has is skipped, and leaves \<^verbatim>\<open>found\<close> as it was.
\<close>

theorem find_match_none_iff_all_skipped:
  "(find_match cv f (Some t) = Inr None \<longleftrightarrow>
      (\<forall>s\<in>set [0.5, 0.75, 1, 1.25, 1.5].
         \<exists>r. resize cv f s s = Inr r \<and> (shape0 r < shape0 t \<or> shape1 r < shape1 t))) \<and>
   (resize cv f s s = Inr r \<and> (shape0 r < shape0 t \<or> shape1 r < shape1 t) \<longrightarrow>
      find_match_loop cv f t (s # rest) found = find_match_loop cv f t rest found)"
proof (intro conjI impI)
  show "find_match cv f (Some t) = Inr None \<longleftrightarrow>
      (\<forall>s\<in>set [0.5, 0.75, 1, 1.25, 1.5].
         \<exists>r. resize cv f s s = Inr r \<and> (shape0 r < shape0 t \<or> shape1 r < shape1 t))"
    unfolding find_match_Some loop_None try_scale_None by simp
next
  assume "resize cv f s s = Inr r \<and> (shape0 r < shape0 t \<or> shape1 r < shape1 t)"
  then have "try_scale cv f t s = Inr None"
    unfolding try_scale_None by blast
  then show "find_match_loop cv f t (s # rest) found = find_match_loop cv f t rest found"
    by simp
qed

text \<open>The theorem at the 1 by 1 frame and the 3 by 3 template: every scale is skipped.\<close>

theorem find_match_none_iff_all_skipped_witness:
  "find_match stand_in frame1 (Some templ3) = Inr None \<and>
   resize stand_in frame1 0.5 0.5 = Inr \<lparr>shape0 = 0, shape1 = 0, pixels = []\<rparr> \<and>
   resize stand_in frame1 1.5 1.5 = Inr \<lparr>shape0 = 1, shape1 = 1, pixels = []\<rparr> \<and>
   (1 :: nat) < shape0 templ3"
proof -
  have "find_match stand_in frame1 (Some templ3) = Inr None"
    by (rule find_match_frame1)
  moreover have "resize stand_in frame1 0.5 0.5 = Inr \<lparr>shape0 = 0, shape1 = 0, pixels = []\<rparr>"
    "resize stand_in frame1 1.5 1.5 = Inr \<lparr>shape0 = 1, shape1 = 1, pixels = []\<rparr>"
    "(1 :: nat) < shape0 templ3"
    by (simp_all add: stand_in_def frame1_def templ3_def)
  ultimately show ?thesis
    using find_match_none_iff_all_skipped [of stand_in frame1 templ3] by blast
qed

section \<open>Properties of the counters\<close>

lemma find_match_None [simp]: "find_match cv g None = Inl AttributeError"
  by (simp add: find_match_def)

lemma check_a_fields:
  "count_a (snd (check_object_a cv ta g now st)) =
     (if (\<exists>v loc s. find_match cv g ta = Inr (Some (v, loc, s)) \<and> THRESHOLD < v) \<and>
         COOLDOWN_TIME < now - last_seen_a st
      then count_a st + 1 else count_a st)"
  "last_seen_a (snd (check_object_a cv ta g now st)) =
     (if (\<exists>v loc s. find_match cv g ta = Inr (Some (v, loc, s)) \<and> THRESHOLD < v) \<and>
         COOLDOWN_TIME < now - last_seen_a st
      then now else last_seen_a st)"
  "count_b (snd (check_object_a cv ta g now st)) = count_b st"
  "last_seen_b (snd (check_object_a cv ta g now st)) = last_seen_b st"
  "fst (check_object_a cv ta g now st) = None \<longleftrightarrow> (\<exists>m. find_match cv g ta = Inr m)"
  by (cases ta; auto simp: check_object_a_def Let_def split: sum.splits option.splits prod.splits)+

lemma check_b_fields:
  "count_b (snd (check_object_b cv tb g now st)) =
     (if (\<exists>v loc s. find_match cv g tb = Inr (Some (v, loc, s)) \<and> THRESHOLD < v) \<and>
         COOLDOWN_TIME < now - last_seen_b st
      then count_b st + 1 else count_b st)"
  "last_seen_b (snd (check_object_b cv tb g now st)) =
     (if (\<exists>v loc s. find_match cv g tb = Inr (Some (v, loc, s)) \<and> THRESHOLD < v) \<and>
         COOLDOWN_TIME < now - last_seen_b st
      then now else last_seen_b st)"
  "count_a (snd (check_object_b cv tb g now st)) = count_a st"
  "last_seen_a (snd (check_object_b cv tb g now st)) = last_seen_a st"
  by (cases tb; auto simp: check_object_b_def Let_def split: sum.splits option.splits prod.splits)+

lemma loop_body_unfold:
  "loop_body cv ta tb st inp =
     (case gray inp of
        Inl e \<Rightarrow> except_clause e st
      | Inr g \<Rightarrow>
          (let ra = check_object_a cv ta g (current_time inp) st in
           case fst ra of
             Some e \<Rightarrow> except_clause e (snd ra)
           | None \<Rightarrow>
               (let rb = check_object_b cv tb g (current_time inp) (snd ra) in
                case fst rb of
                  Some e \<Rightarrow> except_clause e (snd rb)
                | None \<Rightarrow> (snd rb)\<lparr>shown := shown (snd rb) @
                            [Shown (count_a (snd rb)) (count_b (snd rb))]\<rparr>)))"
  by (simp add: loop_body_def Let_def split: sum.splits prod.splits option.splits)

lemma body_a:
  "count_a (loop_body cv ta tb st inp) =
     (if (\<exists>g v loc s. gray inp = Inr g \<and> find_match cv g ta = Inr (Some (v, loc, s)) \<and>
            THRESHOLD < v) \<and> COOLDOWN_TIME < current_time inp - last_seen_a st
      then count_a st + 1 else count_a st)"
  "last_seen_a (loop_body cv ta tb st inp) =
     (if (\<exists>g v loc s. gray inp = Inr g \<and> find_match cv g ta = Inr (Some (v, loc, s)) \<and>
            THRESHOLD < v) \<and> COOLDOWN_TIME < current_time inp - last_seen_a st
      then current_time inp else last_seen_a st)"
proof -
  have c: "count_a (loop_body cv ta tb st inp) =
      (case gray inp of Inl e \<Rightarrow> count_a st
       | Inr g \<Rightarrow> count_a (snd (check_object_a cv ta g (current_time inp) st)))"
    by (simp add: loop_body_unfold Let_def except_clause_def check_b_fields
        split: sum.splits option.splits)
  have l: "last_seen_a (loop_body cv ta tb st inp) =
      (case gray inp of Inl e \<Rightarrow> last_seen_a st
       | Inr g \<Rightarrow> last_seen_a (snd (check_object_a cv ta g (current_time inp) st)))"
    by (simp add: loop_body_unfold Let_def except_clause_def check_b_fields
        split: sum.splits option.splits)
  show "count_a (loop_body cv ta tb st inp) =
     (if (\<exists>g v loc s. gray inp = Inr g \<and> find_match cv g ta = Inr (Some (v, loc, s)) \<and>
            THRESHOLD < v) \<and> COOLDOWN_TIME < current_time inp - last_seen_a st
      then count_a st + 1 else count_a st)"
    unfolding c by (cases "gray inp") (simp_all add: check_a_fields)
  show "last_seen_a (loop_body cv ta tb st inp) =
     (if (\<exists>g v loc s. gray inp = Inr g \<and> find_match cv g ta = Inr (Some (v, loc, s)) \<and>
            THRESHOLD < v) \<and> COOLDOWN_TIME < current_time inp - last_seen_a st
      then current_time inp else last_seen_a st)"
    unfolding l by (cases "gray inp") (simp_all add: check_a_fields)
qed

lemma body_b:
  "count_b (loop_body cv ta tb st inp) =
     (if (\<exists>g m v loc s. gray inp = Inr g \<and> find_match cv g ta = Inr m \<and>
            find_match cv g tb = Inr (Some (v, loc, s)) \<and> THRESHOLD < v) \<and>
         COOLDOWN_TIME < current_time inp - last_seen_b st
      then count_b st + 1 else count_b st)"
  "last_seen_b (loop_body cv ta tb st inp) =
     (if (\<exists>g m v loc s. gray inp = Inr g \<and> find_match cv g ta = Inr m \<and>
            find_match cv g tb = Inr (Some (v, loc, s)) \<and> THRESHOLD < v) \<and>
         COOLDOWN_TIME < current_time inp - last_seen_b st
      then current_time inp else last_seen_b st)"
proof -
  let ?ra = "\<lambda>g. check_object_a cv ta g (current_time inp) st"
  have c: "count_b (loop_body cv ta tb st inp) =
      (case gray inp of Inl e \<Rightarrow> count_b st
       | Inr g \<Rightarrow>
           (case fst (?ra g) of Some e \<Rightarrow> count_b st
            | None \<Rightarrow> count_b (snd (check_object_b cv tb g (current_time inp) (snd (?ra g))))))"
    by (simp add: loop_body_unfold Let_def except_clause_def check_a_fields(3,4)
        split: sum.splits option.splits)
  have l: "last_seen_b (loop_body cv ta tb st inp) =
      (case gray inp of Inl e \<Rightarrow> last_seen_b st
       | Inr g \<Rightarrow>
           (case fst (?ra g) of Some e \<Rightarrow> last_seen_b st
            | None \<Rightarrow> last_seen_b (snd (check_object_b cv tb g (current_time inp) (snd (?ra g))))))"
    by (simp add: loop_body_unfold Let_def except_clause_def check_a_fields(3,4)
        split: sum.splits option.splits)
  show "count_b (loop_body cv ta tb st inp) =
     (if (\<exists>g m v loc s. gray inp = Inr g \<and> find_match cv g ta = Inr m \<and>
            find_match cv g tb = Inr (Some (v, loc, s)) \<and> THRESHOLD < v) \<and>
         COOLDOWN_TIME < current_time inp - last_seen_b st
      then count_b st + 1 else count_b st)"
  proof (cases "gray inp")
    case (Inl e)
    then show ?thesis unfolding c by simp
  next
    case (Inr g)
    show ?thesis
    proof (cases "fst (?ra g)")
      case None
      then have "\<exists>m. find_match cv g ta = Inr m"
        by (simp only: check_a_fields(5))
      with Inr None show ?thesis
        unfolding c by (auto simp: check_b_fields check_a_fields(3,4))
    next
      case (Some e)
      then have "\<not> (\<exists>m. find_match cv g ta = Inr m)"
        using check_a_fields(5) [of cv ta g "current_time inp" st] by simp
      with Inr Some show ?thesis
        unfolding c by auto
    qed
  qed
  show "last_seen_b (loop_body cv ta tb st inp) =
     (if (\<exists>g m v loc s. gray inp = Inr g \<and> find_match cv g ta = Inr m \<and>
            find_match cv g tb = Inr (Some (v, loc, s)) \<and> THRESHOLD < v) \<and>
         COOLDOWN_TIME < current_time inp - last_seen_b st
      then current_time inp else last_seen_b st)"
  proof (cases "gray inp")
    case (Inl e)
    then show ?thesis unfolding l by simp
  next
    case (Inr g)
    show ?thesis
    proof (cases "fst (?ra g)")
      case None
      then have "\<exists>m. find_match cv g ta = Inr m"
        by (simp only: check_a_fields(5))
      with Inr None show ?thesis
        unfolding l by (auto simp: check_b_fields check_a_fields(3,4))
    next
      case (Some e)
      then have "\<not> (\<exists>m. find_match cv g ta = Inr m)"
        using check_a_fields(5) [of cv ta g "current_time inp" st] by simp
      with Inr Some show ?thesis
        unfolding l by auto
    qed
  qed
qed

lemma body_mono:
  "count_a st \<le> count_a (loop_body cv ta tb st inp)"
  "count_b st \<le> count_b (loop_body cv ta tb st inp)"
  "last_seen_a st \<le> last_seen_a (loop_body cv ta tb st inp)"
  "last_seen_b st \<le> last_seen_b (loop_body cv ta tb st inp)"
  by (simp_all add: body_a body_b COOLDOWN_TIME_def)

lemma main_loop_mono:
  "count_a st \<le> count_a (main_loop cv ta tb st inps) \<and>
   count_b st \<le> count_b (main_loop cv ta tb st inps)"
proof (induction inps arbitrary: st)
  case Nil
  then show ?case by simp
next
  case (Cons inp inps)
  have "count_a st \<le> count_a (loop_body cv ta tb st inp)"
    "count_b st \<le> count_b (loop_body cv ta tb st inp)"
    by (rule body_mono)+
  moreover note Cons.IH [of "loop_body cv ta tb st inp"]
  ultimately show ?case
    by (auto simp: Let_def)
qed

lemma main_loop_foldl:
  "\<forall>x\<in>set inps. (waitKey x AND 255) \<noteq> 113 \<Longrightarrow>
   main_loop cv ta tb st inps = foldl (loop_body cv ta tb) st inps"
  by (induction inps arbitrary: st) (simp_all add: Let_def)

lemma foldl_last_seen_mono:
  "last_seen_a st \<le> last_seen_a (foldl (loop_body cv ta tb) st inps) \<and>
   last_seen_b st \<le> last_seen_b (foldl (loop_body cv ta tb) st inps)"
proof (induction inps arbitrary: st)
  case Nil
  then show ?case by simp
next
  case (Cons inp inps)
  have "last_seen_a st \<le> last_seen_a (loop_body cv ta tb st inp)"
    "last_seen_b st \<le> last_seen_b (loop_body cv ta tb st inp)"
    by (rule body_mono)+
  moreover note Cons.IH [of "loop_body cv ta tb st inp"]
  ultimately show ?case
    by auto
qed

lemma window:
  assumes nq: "\<forall>x\<in>set inps. (waitKey x AND 255) \<noteq> 113"
    and ij: "i < j" "j < length inps"
  shows "count_a (main_loop cv ta tb st (take (Suc i) inps)) \<noteq>
           count_a (main_loop cv ta tb st (take i inps)) \<Longrightarrow>
         count_a (main_loop cv ta tb st (take (Suc j) inps)) \<noteq>
           count_a (main_loop cv ta tb st (take j inps)) \<Longrightarrow>
         COOLDOWN_TIME < current_time (inps ! j) - current_time (inps ! i)"
    and "count_b (main_loop cv ta tb st (take (Suc i) inps)) \<noteq>
           count_b (main_loop cv ta tb st (take i inps)) \<Longrightarrow>
         count_b (main_loop cv ta tb st (take (Suc j) inps)) \<noteq>
           count_b (main_loop cv ta tb st (take j inps)) \<Longrightarrow>
         COOLDOWN_TIME < current_time (inps ! j) - current_time (inps ! i)"
proof -
  let ?F = "\<lambda>k. foldl (loop_body cv ta tb) st (take k inps)"
  have ml: "main_loop cv ta tb st (take k inps) = ?F k" for k
  proof (rule main_loop_foldl)
    show "\<forall>x\<in>set (take k inps). (waitKey x AND 255) \<noteq> 113"
      using nq by (meson in_set_takeD)
  qed
  have step: "?F (Suc k) = loop_body cv ta tb (?F k) (inps ! k)" if "k < length inps" for k
    using that by (simp add: take_Suc_conv_app_nth)
  have "take j inps = take (Suc i) inps @ take (j - Suc i) (drop (Suc i) inps)"
    using ij(1) take_add [of "Suc i" "j - Suc i" inps] by simp
  then have Fj: "?F j = foldl (loop_body cv ta tb) (?F (Suc i)) (take (j - Suc i) (drop (Suc i) inps))"
    by (simp only: foldl_append)
  have i_len: "i < length inps" using ij by simp
  {
    assume "count_a (main_loop cv ta tb st (take (Suc i) inps)) \<noteq>
           count_a (main_loop cv ta tb st (take i inps))"
      and "count_a (main_loop cv ta tb st (take (Suc j) inps)) \<noteq>
           count_a (main_loop cv ta tb st (take j inps))"
    then have inc: "count_a (loop_body cv ta tb (?F i) (inps ! i)) \<noteq> count_a (?F i)"
      "count_a (loop_body cv ta tb (?F j) (inps ! j)) \<noteq> count_a (?F j)"
      unfolding ml step [OF i_len] step [OF ij(2)] by simp_all
    from inc(1) have "last_seen_a (?F (Suc i)) = current_time (inps ! i)"
      unfolding step [OF i_len] body_a by (simp split: if_splits)
    moreover have "last_seen_a (?F (Suc i)) \<le> last_seen_a (?F j)"
      unfolding Fj using foldl_last_seen_mono by blast
    moreover from inc(2) have "COOLDOWN_TIME < current_time (inps ! j) - last_seen_a (?F j)"
      unfolding body_a by (simp split: if_splits)
    ultimately show "COOLDOWN_TIME < current_time (inps ! j) - current_time (inps ! i)"
      by simp
  }
  {
    assume "count_b (main_loop cv ta tb st (take (Suc i) inps)) \<noteq>
           count_b (main_loop cv ta tb st (take i inps))"
      and "count_b (main_loop cv ta tb st (take (Suc j) inps)) \<noteq>
           count_b (main_loop cv ta tb st (take j inps))"
    then have inc: "count_b (loop_body cv ta tb (?F i) (inps ! i)) \<noteq> count_b (?F i)"
      "count_b (loop_body cv ta tb (?F j) (inps ! j)) \<noteq> count_b (?F j)"
      unfolding ml step [OF i_len] step [OF ij(2)] by simp_all
    from inc(1) have "last_seen_b (?F (Suc i)) = current_time (inps ! i)"
      unfolding step [OF i_len] body_b by (simp split: if_splits)
    moreover have "last_seen_b (?F (Suc i)) \<le> last_seen_b (?F j)"
      unfolding Fj using foldl_last_seen_mono by blast
    moreover from inc(2) have "COOLDOWN_TIME < current_time (inps ! j) - last_seen_b (?F j)"
      unfolding body_b by (simp split: if_splits)
    ultimately show "COOLDOWN_TIME < current_time (inps ! j) - current_time (inps ! i)"
      by simp
  }
qed

lemma run_qualifying:
  assumes a: "find_match cv g ta = Inr (Some (v, loc, s))" "THRESHOLD < v"
    and k: "(k AND 255) \<noteq> 113"
  shows "(count_a (main_loop cv ta tb st (map (\<lambda>t. \<lparr>gray = Inr g, current_time = t, waitKey = k\<rparr>) ts)),
          last_seen_a (main_loop cv ta tb st (map (\<lambda>t. \<lparr>gray = Inr g, current_time = t, waitKey = k\<rparr>) ts))) =
         foldl (\<lambda>(c, l) t. if COOLDOWN_TIME < t - l then (c + 1, t) else (c, l))
           (count_a st, last_seen_a st) ts"
proof (induction ts arbitrary: st)
  case Nil
  then show ?case by simp
next
  case (Cons t ts)
  let ?inp = "\<lparr>gray = Inr g, current_time = t, waitKey = k\<rparr>"
  have "(count_a (loop_body cv ta tb st ?inp), last_seen_a (loop_body cv ta tb st ?inp)) =
      (if COOLDOWN_TIME < t - last_seen_a st then (count_a st + 1, t)
       else (count_a st, last_seen_a st))"
    using a by (simp add: body_a)
  with Cons.IH [of "loop_body cv ta tb st ?inp"] k show ?case
    by (simp add: Let_def)
qed

lemma run_qualifying_b:
  assumes a: "find_match cv g ta = Inr m"
    and b: "find_match cv g tb = Inr (Some (v, loc, s))" "THRESHOLD < v"
    and k: "(k AND 255) \<noteq> 113"
  shows "(count_b (main_loop cv ta tb st (map (\<lambda>t. \<lparr>gray = Inr g, current_time = t, waitKey = k\<rparr>) ts)),
          last_seen_b (main_loop cv ta tb st (map (\<lambda>t. \<lparr>gray = Inr g, current_time = t, waitKey = k\<rparr>) ts))) =
         foldl (\<lambda>(c, l) t. if COOLDOWN_TIME < t - l then (c + 1, t) else (c, l))
           (count_b st, last_seen_b st) ts"
proof (induction ts arbitrary: st)
  case Nil
  then show ?case by simp
next
  case (Cons t ts)
  let ?inp = "\<lparr>gray = Inr g, current_time = t, waitKey = k\<rparr>"
  have "(count_b (loop_body cv ta tb st ?inp), last_seen_b (loop_body cv ta tb st ?inp)) =
      (if COOLDOWN_TIME < t - last_seen_b st then (count_b st + 1, t)
       else (count_b st, last_seen_b st))"
    using a b by (simp add: body_b)
  with Cons.IH [of "loop_body cv ta tb st ?inp"] k show ?case
    by (simp add: Let_def)
qed

lemma twenty_frames:
  assumes "2 < t0"
  shows "foldl (\<lambda>(c, l) t. if COOLDOWN_TIME < t - l then (c + 1, t) else (c, l))
           (0 :: int, 0 :: real) (map (\<lambda>n. t0 + real n / 2) [0..<20]) = (4, t0 + 15 / 2)"
  using assms by (simp add: COOLDOWN_TIME_def upt_rec)

lemma no_key: "((- 1 :: int) AND 255) \<noteq> 113"
  by simp

lemma count_b_without_a:
  "count_b (main_loop cv None tb st inps) = count_b st"
proof (induction inps arbitrary: st)
  case Nil
  then show ?case by simp
next
  case (Cons inp inps)
  have "count_b (loop_body cv None tb st inp) = count_b st"
    by (simp add: body_b)
  with Cons.IH [of "loop_body cv None tb st inp"] show ?case
    by (simp add: Let_def)
qed

text \<open>
  Claim C1, as amended. Over every run of the loop the two counts never decrease. An
  iteration changes the count of a label only when the match of that label has a score
  above \<open>THRESHOLD\<close> and \<open>current_time - last_seen > COOLDOWN_TIME\<close>; it then adds 1 and
  sets \<open>last_seen\<close> to the current time. Hence any two iterations of a run that both count
  a label are more than \<open>COOLDOWN_TIME\<close> apart. The comparison with the cooldown is
  strict: a qualifying match seen every 0.5 s for 10 s (20 iterations, the first later
  than \<open>COOLDOWN_TIME\<close> on the clock, as \<^verbatim>\<open>time.time()\<close> is) is counted exactly 4 times, at
  \<open>t0\<close>, \<open>t0 + 2.5\<close>, \<open>t0 + 5\<close> and \<open>t0 + 7.5\<close>.
\<close>

theorem counts_debounced:
  "(count_a st \<le> count_a (main_loop cv ta tb st inps) \<and>
    count_b st \<le> count_b (main_loop cv ta tb st inps)) \<and>
   (count_a (loop_body cv ta tb st inp) \<noteq> count_a st \<longrightarrow>
      (\<exists>g v loc s. gray inp = Inr g \<and> find_match cv g ta = Inr (Some (v, loc, s)) \<and>
         THRESHOLD < v) \<and>
      COOLDOWN_TIME < current_time inp - last_seen_a st \<and>
      count_a (loop_body cv ta tb st inp) = count_a st + 1 \<and>
      last_seen_a (loop_body cv ta tb st inp) = current_time inp) \<and>
   (count_b (loop_body cv ta tb st inp) \<noteq> count_b st \<longrightarrow>
      (\<exists>g v loc s. gray inp = Inr g \<and> find_match cv g tb = Inr (Some (v, loc, s)) \<and>
         THRESHOLD < v) \<and>
      COOLDOWN_TIME < current_time inp - last_seen_b st \<and>
      count_b (loop_body cv ta tb st inp) = count_b st + 1 \<and>
      last_seen_b (loop_body cv ta tb st inp) = current_time inp) \<and>
   ((\<forall>x\<in>set inps. (waitKey x AND 255) \<noteq> 113) \<and> i < j \<and> j < length inps \<and>
    count_a (main_loop cv ta tb st (take (Suc i) inps)) \<noteq>
      count_a (main_loop cv ta tb st (take i inps)) \<and>
    count_a (main_loop cv ta tb st (take (Suc j) inps)) \<noteq>
      count_a (main_loop cv ta tb st (take j inps)) \<longrightarrow>
      COOLDOWN_TIME < current_time (inps ! j) - current_time (inps ! i)) \<and>
   ((\<forall>x\<in>set inps. (waitKey x AND 255) \<noteq> 113) \<and> i < j \<and> j < length inps \<and>
    count_b (main_loop cv ta tb st (take (Suc i) inps)) \<noteq>
      count_b (main_loop cv ta tb st (take i inps)) \<and>
    count_b (main_loop cv ta tb st (take (Suc j) inps)) \<noteq>
      count_b (main_loop cv ta tb st (take j inps)) \<longrightarrow>
      COOLDOWN_TIME < current_time (inps ! j) - current_time (inps ! i)) \<and>
   (find_match cv f ta = Inr (Some (va, la, sa)) \<and> THRESHOLD < va \<and>
    (k AND 255) \<noteq> 113 \<and> COOLDOWN_TIME < t0 \<longrightarrow>
      count_a (main_loop cv ta tb initial (half_second_ticks f k t0)) = 4) \<and>
   (find_match cv f ta = Inr m \<and> find_match cv f tb = Inr (Some (vb, lb, sb)) \<and>
    THRESHOLD < vb \<and> (k AND 255) \<noteq> 113 \<and> COOLDOWN_TIME < t0 \<longrightarrow>
      count_b (main_loop cv ta tb initial (half_second_ticks f k t0)) = 4)"
proof (intro conjI impI)
  show "count_a st \<le> count_a (main_loop cv ta tb st inps)"
    "count_b st \<le> count_b (main_loop cv ta tb st inps)"
    using main_loop_mono by blast+
next
  assume h: "count_a (loop_body cv ta tb st inp) \<noteq> count_a st"
  then have c: "(\<exists>g v loc s. gray inp = Inr g \<and> find_match cv g ta = Inr (Some (v, loc, s)) \<and>
         THRESHOLD < v) \<and> COOLDOWN_TIME < current_time inp - last_seen_a st"
    unfolding body_a by (simp split: if_splits)
  then show "\<exists>g v loc s. gray inp = Inr g \<and> find_match cv g ta = Inr (Some (v, loc, s)) \<and>
         THRESHOLD < v"
    and "COOLDOWN_TIME < current_time inp - last_seen_a st"
    by blast+
  from c show "count_a (loop_body cv ta tb st inp) = count_a st + 1"
    and "last_seen_a (loop_body cv ta tb st inp) = current_time inp"
    unfolding body_a by simp_all
next
  assume h: "count_b (loop_body cv ta tb st inp) \<noteq> count_b st"
  then have c: "(\<exists>g m v loc s. gray inp = Inr g \<and> find_match cv g ta = Inr m \<and>
            find_match cv g tb = Inr (Some (v, loc, s)) \<and> THRESHOLD < v) \<and>
         COOLDOWN_TIME < current_time inp - last_seen_b st"
    unfolding body_b by (simp split: if_splits)
  then show "\<exists>g v loc s. gray inp = Inr g \<and> find_match cv g tb = Inr (Some (v, loc, s)) \<and>
         THRESHOLD < v"
    and "COOLDOWN_TIME < current_time inp - last_seen_b st"
    by blast+
  from c show "count_b (loop_body cv ta tb st inp) = count_b st + 1"
    and "last_seen_b (loop_body cv ta tb st inp) = current_time inp"
    unfolding body_b by simp_all
next
  assume "(\<forall>x\<in>set inps. (waitKey x AND 255) \<noteq> 113) \<and> i < j \<and> j < length inps \<and>
    count_a (main_loop cv ta tb st (take (Suc i) inps)) \<noteq>
      count_a (main_loop cv ta tb st (take i inps)) \<and>
    count_a (main_loop cv ta tb st (take (Suc j) inps)) \<noteq>
      count_a (main_loop cv ta tb st (take j inps))"
  then show "COOLDOWN_TIME < current_time (inps ! j) - current_time (inps ! i)"
    using window(1) [of inps i j cv ta tb st] by blast
next
  assume "(\<forall>x\<in>set inps. (waitKey x AND 255) \<noteq> 113) \<and> i < j \<and> j < length inps \<and>
    count_b (main_loop cv ta tb st (take (Suc i) inps)) \<noteq>
      count_b (main_loop cv ta tb st (take i inps)) \<and>
    count_b (main_loop cv ta tb st (take (Suc j) inps)) \<noteq>
      count_b (main_loop cv ta tb st (take j inps))"
  then show "COOLDOWN_TIME < current_time (inps ! j) - current_time (inps ! i)"
    using window(2) [of inps i j cv ta tb st] by blast
next
  assume h: "find_match cv f ta = Inr (Some (va, la, sa)) \<and> THRESHOLD < va \<and>
    (k AND 255) \<noteq> 113 \<and> COOLDOWN_TIME < t0"
  then have t0: "2 < t0" by (simp add: COOLDOWN_TIME_def)
  have ticks: "half_second_ticks f k t0 =
      map (\<lambda>t. \<lparr>gray = Inr f, current_time = t, waitKey = k\<rparr>)
        (map (\<lambda>n. t0 + real n / 2) [0..<20])"
    by (simp add: half_second_ticks_def)
  from h have "(count_a (main_loop cv ta tb initial (half_second_ticks f k t0)),
      last_seen_a (main_loop cv ta tb initial (half_second_ticks f k t0))) =
      foldl (\<lambda>(c, l) t. if COOLDOWN_TIME < t - l then (c + 1, t) else (c, l))
        (count_a initial, last_seen_a initial) (map (\<lambda>n. t0 + real n / 2) [0..<20])"
    unfolding ticks by (intro run_qualifying) blast+
  also have "\<dots> = (4, t0 + 15 / 2)"
    using twenty_frames [OF t0] by (simp add: initial_def)
  finally show "count_a (main_loop cv ta tb initial (half_second_ticks f k t0)) = 4"
    by simp
next
  assume h: "find_match cv f ta = Inr m \<and> find_match cv f tb = Inr (Some (vb, lb, sb)) \<and>
    THRESHOLD < vb \<and> (k AND 255) \<noteq> 113 \<and> COOLDOWN_TIME < t0"
  then have t0: "2 < t0" by (simp add: COOLDOWN_TIME_def)
  have ticks: "half_second_ticks f k t0 =
      map (\<lambda>t. \<lparr>gray = Inr f, current_time = t, waitKey = k\<rparr>)
        (map (\<lambda>n. t0 + real n / 2) [0..<20])"
    by (simp add: half_second_ticks_def)
  from h have "(count_b (main_loop cv ta tb initial (half_second_ticks f k t0)),
      last_seen_b (main_loop cv ta tb initial (half_second_ticks f k t0))) =
      foldl (\<lambda>(c, l) t. if COOLDOWN_TIME < t - l then (c + 1, t) else (c, l))
        (count_b initial, last_seen_b initial) (map (\<lambda>n. t0 + real n / 2) [0..<20])"
    unfolding ticks by (intro run_qualifying_b) blast+
  also have "\<dots> = (4, t0 + 15 / 2)"
    using twenty_frames [OF t0] by (simp add: initial_def)
  finally show "count_b (main_loop cv ta tb initial (half_second_ticks f k t0)) = 4"
    by simp
qed

text \<open>
  The theorem at the stand-in, with the 4 by 4 frame and the 3 by 3 template for both
  labels, from the time 1000 on.
\<close>

theorem counts_debounced_witness:
  "find_match stand_in frame4 (Some templ3) = Inr (Some (0.9, (0, 0), 1)) \<and>
   THRESHOLD < 0.9 \<and> ((- 1 :: int) AND 255) \<noteq> 113 \<and> COOLDOWN_TIME < 1000 \<and>
   count_a (main_loop stand_in (Some templ3) (Some templ3) initial
              (half_second_ticks frame4 (- 1) 1000)) = 4 \<and>
   count_b (main_loop stand_in (Some templ3) (Some templ3) initial
              (half_second_ticks frame4 (- 1) 1000)) = 4"
proof -
  have "THRESHOLD < 0.9" "((- 1 :: int) AND 255) \<noteq> 113" "COOLDOWN_TIME < 1000"
    by (simp_all add: THRESHOLD_def COOLDOWN_TIME_def)
  then show ?thesis
    using counts_debounced [where cv = stand_in and ta = "Some templ3" and tb = "Some templ3"
        and f = frame4 and va = "0.9" and la = "(0, 0)" and sa = 1
        and vb = "0.9" and lb = "(0, 0)" and sb = 1
        and m = "Some (0.9, (0, 0), 1)" and k = "- 1" and ?t0.0 = 1000]
      find_match_frame4
    by blast
qed

text \<open>
  The claim as stated fails on that run: the frame matches with the score 0.9 in each of
  the 20 iterations, at the times 1000, 1000.5, ..., 1009.5. It is counted at 1000, then
  not at 1002 (\<open>1002 - 1000 > 2\<close> is false) but at 1002.5, at 1005 and at 1007.5: 4
  times, not 5.
\<close>

theorem counts_every_half_second_counterexample:
  "count_a (main_loop stand_in (Some templ3) (Some templ3) initial
              (half_second_ticks frame4 (- 1) 1000)) = 4 \<and>
   count_a (main_loop stand_in (Some templ3) (Some templ3) initial
              (half_second_ticks frame4 (- 1) 1000)) \<noteq> 5"
proof -
  have ticks: "half_second_ticks frame4 (- 1) 1000 =
      map (\<lambda>t. \<lparr>gray = Inr frame4, current_time = t, waitKey = - 1\<rparr>)
        (map (\<lambda>n. 1000 + real n / 2) [0..<20])"
    by (simp add: half_second_ticks_def)
  have "THRESHOLD < 0.9" by (simp add: THRESHOLD_def)
  then have "(count_a (main_loop stand_in (Some templ3) (Some templ3) initial
                  (half_second_ticks frame4 (- 1) 1000)),
      last_seen_a (main_loop stand_in (Some templ3) (Some templ3) initial
                  (half_second_ticks frame4 (- 1) 1000))) =
      foldl (\<lambda>(c, l) t. if COOLDOWN_TIME < t - l then (c + 1, t) else (c, l))
        (count_a initial, last_seen_a initial) (map (\<lambda>n. 1000 + real n / 2) [0..<20])"
    unfolding ticks using find_match_frame4 no_key by (intro run_qualifying)
  also have "\<dots> = (4, 1000 + 15 / 2)"
    using twenty_frames [of 1000] by (simp add: initial_def)
  finally show ?thesis by simp
qed

text \<open>
  Claim C4, where the code departs from it. \<open>load_and_prep\<close> does print its error and
  return \<^verbatim>\<open>None\<close> for a file that cannot be read. But with \<^verbatim>\<open>None\<close> for the template of
  object A, \<open>find_match\<close> raises AttributeError, every iteration that fetched a frame ends
  in the exception handler before object B is looked at, and the count of B never
  changes, whatever the frames show.
\<close>

theorem missing_template_a_stops_b:
  "(imread cv path = None \<longrightarrow>
      load_and_prep cv path = (Inr None, [''Error: Could not find '' @ path])) \<and>
   find_match cv g None = Inl AttributeError \<and>
   loop_body cv None tb st \<lparr>gray = Inr g, current_time = now, waitKey = k\<rparr> =
     except_clause AttributeError st \<and>
   count_b (main_loop cv None tb st inps) = count_b st"
proof (intro conjI impI)
  assume "imread cv path = None"
  then show "load_and_prep cv path = (Inr None, [''Error: Could not find '' @ path])"
    by (simp add: load_and_prep_def)
next
  show "find_match cv g None = Inl AttributeError" by simp
next
  show "loop_body cv None tb st \<lparr>gray = Inr g, current_time = now, waitKey = k\<rparr> =
     except_clause AttributeError st"
    by (simp add: loop_body_def check_object_a_def)
next
  show "count_b (main_loop cv None tb st inps) = count_b st"
    by (rule count_b_without_a)
qed

text \<open>
  The theorem at the stand-in, where \<^verbatim>\<open>objectA.png\<close> cannot be read and \<^verbatim>\<open>objectB.png\<close>
  can: the frame matches the template of B with the score 0.9 in 20 iterations, and the
  count of B stays 0.
\<close>

theorem missing_template_a_stops_b_witness:
  "imread stand_in ''objectA.png'' = None \<and>
   load_and_prep stand_in ''objectA.png'' = (Inr None, [''Error: Could not find objectA.png'']) \<and>
   load_and_prep stand_in ''objectB.png'' = (Inr (Some templ3), []) \<and>
   find_match stand_in frame4 (Some templ3) = Inr (Some (0.9, (0, 0), 1)) \<and>
   count_b (main_loop stand_in None (Some templ3) initial
              (half_second_ticks frame4 (- 1) 1000)) = 0"
proof -
  have "imread stand_in ''objectA.png'' = None"
    "load_and_prep stand_in ''objectB.png'' = (Inr (Some templ3), [])"
    "count_b initial = 0"
    by (simp_all add: stand_in_def load_and_prep_def templ3_def initial_def)
  then show ?thesis
    using missing_template_a_stops_b
      [of stand_in "''objectA.png''" frame4 "Some templ3" initial 1000 "- 1"
          "half_second_ticks frame4 (- 1) 1000"]
      find_match_frame4
    by simp
qed

section \<open>Properties of the emission calculator\<close>

lemma exact_ops:
  "f_lit exact c = c" "f_add exact x y = x + y" "f_sub exact x y = x - y"
  "f_mul exact x y = x * y"
  "f_div exact x y = (if y = 0 then Inl ZeroDivisionError else Inr (x / y))"
  "f_pow2 exact x = Inr (x\<^sup>2)"
  "f_sqrt exact x = (if x < 0 then Inl ValueError else Inr (sqrt x))"
  "f_less exact x y \<longleftrightarrow> x < y"
  by (simp_all add: exact_def)

lemma calculate_emissions_str:
  "calculate_emissions exact d w (JStr m) =
     Inr (d * (w / 1000) * (if m = ''road'' then 0.080 else if m = ''rail'' then 0.020
          else if m = ''air'' then 0.500 else 0.080))"
  by (simp add: calculate_emissions_def EMISSION_FACTORS_def exact_ops)







section \<open>Properties of the route optimiser\<close>



lemma min_loop_keys: "min_loop lt key b bv ys = Inr m \<Longrightarrow> \<forall>y\<in>set ys. \<exists>v. key y = Inr v"
  by (induction ys arbitrary: b bv) (auto split: sum.splits if_splits)











lemma factor_road: "factor_of (JStr ''road'') = Inr 0.080"
  by (simp add: EMISSION_FACTORS_def)

lemma optimize_route_unfold:
  assumes "2 \<le> length locs"
    and "nearest_loop fl (hd locs) (tl locs) [hd locs] [Optimization_Started] = Inr (path, lg)"
    and "total_degrees fl path = Inr T"
    and w: "f_div fl (f_lit fl 1000) (f_lit fl 1000) = Inr w"
  shows "optimize_route fl (Some locs) cc =
      (case (if f_less fl (f_lit fl 0)
                 (f_mul fl (f_mul fl (f_mul fl (f_mul fl T (f_lit fl 111)) (f_lit fl 1.45)) w)
                    (f_lit fl 0.080))
             then (case f_div fl
                     (py_max fl (f_lit fl 0)
                        (f_sub fl
                           (f_mul fl
                              (f_mul fl (f_mul fl (f_mul fl T (f_lit fl 111)) (f_lit fl 1.45)) w)
                              (f_lit fl 0.080))
                           (f_mul fl (f_mul fl (f_mul fl T (f_lit fl 111)) w) (f_lit fl 0.080))))
                     (f_mul fl (f_mul fl (f_mul fl (f_mul fl T (f_lit fl 111)) (f_lit fl 1.45)) w)
                        (f_lit fl 0.080)) of
                     Inl e \<Rightarrow> Inl e
                   | Inr ratio \<Rightarrow> Inr (f_mul fl ratio (f_lit fl 100)))
             else Inr (f_lit fl 0)) of
         Inl e \<Rightarrow> (Raised e, cc)
       | Inr reduction_pct \<Rightarrow>
           (Ok \<lparr>optimized_route = path, logs = lg,
                stats = \<lparr>total_distance_km = f_mul fl T (f_lit fl 111),
                          optimized =
                            f_mul fl (f_mul fl (f_mul fl T (f_lit fl 111)) w) (f_lit fl 0.080),
                          baseline =
                            f_mul fl
                              (f_mul fl (f_mul fl (f_mul fl T (f_lit fl 111)) (f_lit fl 1.45)) w)
                              (f_lit fl 0.080),
                          saved =
                            py_max fl (f_lit fl 0)
                              (f_sub fl
                                 (f_mul fl
                                    (f_mul fl
                                       (f_mul fl (f_mul fl T (f_lit fl 111)) (f_lit fl 1.45)) w)
                                    (f_lit fl 0.080))
                                 (f_mul fl (f_mul fl (f_mul fl T (f_lit fl 111)) w)
                                    (f_lit fl 0.080))),
                          percent = reduction_pct\<rparr>\<rparr>, cc))"
proof -
  have ce: "calculate_emissions fl x (f_lit fl 1000) (JStr ''road'') =
      Inr (f_mul fl (f_mul fl x w) (f_lit fl 0.080))" for x
    by (simp add: calculate_emissions_def EMISSION_FACTORS_def w)
  have "\<not> length locs < 2" using assms(1) by simp
  then show ?thesis
    unfolding optimize_route_def Let_def
    by (simp only: option.case if_False assms(2,3) sum.case prod.case ce)
qed

lemma optimize_route_OkE:
  assumes "optimize_route fl d cc = (Ok r, cc')"
  obtains locs path lg T w where "d = Some locs" "2 \<le> length locs" "cc' = cc"
    "nearest_loop fl (hd locs) (tl locs) [hd locs] [Optimization_Started] = Inr (path, lg)"
    "total_degrees fl path = Inr T"
    "f_div fl (f_lit fl 1000) (f_lit fl 1000) = Inr w"
    "optimized_route r = path" "logs r = lg"
    "total_distance_km (stats r) = f_mul fl T (f_lit fl 111)"
    "optimized (stats r) = f_mul fl (f_mul fl (total_distance_km (stats r)) w) (f_lit fl 0.080)"
    "baseline (stats r) =
       f_mul fl (f_mul fl (f_mul fl (total_distance_km (stats r)) (f_lit fl 1.45)) w)
         (f_lit fl 0.080)"
    "saved (stats r) =
       py_max fl (f_lit fl 0) (f_sub fl (baseline (stats r)) (optimized (stats r)))"
    "if f_less fl (f_lit fl 0) (baseline (stats r))
     then (\<exists>q. f_div fl (saved (stats r)) (baseline (stats r)) = Inr q \<and>
               percent (stats r) = f_mul fl q (f_lit fl 100))
     else percent (stats r) = f_lit fl 0"
proof -
  from assms obtain locs where d: "d = Some locs" and len: "2 \<le> length locs"
    by (cases d) (auto simp: optimize_route_def split: if_splits)
  from assms d len obtain path lg where
    nl: "nearest_loop fl (hd locs) (tl locs) [hd locs] [Optimization_Started] = Inr (path, lg)"
    by (auto simp: optimize_route_def Let_def split: sum.splits)
  from assms d len nl obtain T where T: "total_degrees fl path = Inr T"
    by (auto simp: optimize_route_def Let_def split: sum.splits)
  from assms d len nl T obtain w where w: "f_div fl (f_lit fl 1000) (f_lit fl 1000) = Inr w"
    by (auto simp: optimize_route_def Let_def calculate_emissions_def EMISSION_FACTORS_def
        split: sum.splits)
  let ?km = "f_mul fl T (f_lit fl 111)"
  let ?o = "f_mul fl (f_mul fl ?km w) (f_lit fl 0.080)"
  let ?b = "f_mul fl (f_mul fl (f_mul fl ?km (f_lit fl 1.45)) w) (f_lit fl 0.080)"
  let ?s = "py_max fl (f_lit fl 0) (f_sub fl ?b ?o)"
  have ce: "calculate_emissions fl x (f_lit fl 1000) (JStr ''road'') =
      Inr (f_mul fl (f_mul fl x w) (f_lit fl 0.080))" for x
    by (simp add: calculate_emissions_def EMISSION_FACTORS_def w)
  let ?X = "if f_less fl (f_lit fl 0) ?b
            then (case f_div fl ?s ?b of
                    Inl e \<Rightarrow> Inl e
                  | Inr ratio \<Rightarrow> Inr (f_mul fl ratio (f_lit fl 100)))
            else Inr (f_lit fl 0)"
  have unf: "optimize_route fl d cc =
      (case ?X of
         Inl e \<Rightarrow> (Raised e, cc)
       | Inr reduction_pct \<Rightarrow>
           (Ok \<lparr>optimized_route = path, logs = lg,
                stats = \<lparr>total_distance_km = ?km, optimized = ?o,
                          baseline = ?b, saved = ?s,
                          percent = reduction_pct\<rparr>\<rparr>, cc))"
    unfolding d by (rule optimize_route_unfold [OF len nl T w])
  obtain pct where pct: "?X = Inr pct"
  proof (cases ?X)
    case (Inl e)
    with unf assms show ?thesis by (simp split del: if_split)
  next
    case (Inr p)
    then show ?thesis by (rule that)
  qed
  from assms have r': "r = \<lparr>optimized_route = path, logs = lg,
               stats = \<lparr>total_distance_km = ?km, optimized = ?o,
                         baseline = ?b, saved = ?s, percent = pct\<rparr>\<rparr>" and cc: "cc' = cc"
    unfolding unf pct by simp_all
  have "if f_less fl (f_lit fl 0) (baseline (stats r))
     then (\<exists>q. f_div fl (saved (stats r)) (baseline (stats r)) = Inr q \<and>
               percent (stats r) = f_mul fl q (f_lit fl 100))
     else percent (stats r) = f_lit fl 0"
    using pct unfolding r' by (auto split: sum.splits if_splits)
  with d len cc nl T w r' show ?thesis
    by (intro that [of locs path lg T w]) simp_all
qed


lemma unrounded_ops:
  "f_lit unrounded = fin" "f_add unrounded = x_add"
  "f_sub unrounded x y = x_add x (x_neg y)" "f_mul unrounded = x_mul"
  "f_div unrounded = x_div" "f_pow2 unrounded = x_pow2" "f_sqrt unrounded = x_sqrt"
  "f_less unrounded = x_less"
  by (simp_all add: unrounded_def)

lemma x_less_irrefl: "\<not> x_less x x"
  by (cases x) simp_all

lemma x_less_trans: "x_less x y \<Longrightarrow> x_less y z \<Longrightarrow> x_less x z"
  by (cases x; cases y; cases z) simp_all

lemma fin_1000: "fin 1000 = Fin 1000"
  by (simp add: fin_def)

lemma float_laws_unrounded: "float_laws unrounded"
  unfolding float_laws_def unrounded_ops
proof (intro conjI allI impI)
  fix x show "\<not> x_less x x" by (rule x_less_irrefl)
next
  fix x y z assume "x_less x y" "x_less y z" then show "x_less x z" by (rule x_less_trans)
next
  fix x show "\<exists>y. x_div x (fin 1000) = Inr y"
    by (cases x) (simp_all add: fin_1000)
next
  fix x y assume "x_less (fin 0) y"
  then show "\<exists>z. x_div x y = Inr z"
    by (cases y; cases x) (auto simp: fin_def split: if_splits)
qed


lemma get_dist_exact:
  "get_dist exact p q = Inr (sqrt ((lat p - lat q)\<^sup>2 + (lng p - lng q)\<^sup>2))"
proof -
  have "\<not> (lat p - lat q)\<^sup>2 + (lng p - lng q)\<^sup>2 < 0"
    by (simp add: not_less)
  then show ?thesis
    by (simp add: get_dist_def exact_ops)
qed












text \<open>
  The claim as stated fails at the locations (0, 0) and (1e200, 0), in the arithmetic
  with the range of floats: the difference of the latitudes is -1e200, its square is out
  of range, \<^verbatim>\<open>** 2\<close> raises OverflowError inside \<open>get_dist\<close>, and no path is returned.
\<close>

theorem optimize_route_overflow_counterexample:
  "optimize_route unrounded
     (Some [\<lparr>lat = Fin 0, lng = Fin 0\<rparr>, \<lparr>lat = Fin (10 ^ 200), lng = Fin 0\<rparr>])
     current_counts =
     (Raised OverflowError, current_counts)"
  by (simp add: optimize_route_def Let_def get_dist_def unrounded_ops fin_def)

text \<open>
  Claim C6. When the \<^verbatim>\<open>locations\<close> of a request (the empty list when the key is missing)
  are fewer than 2, \<open>optimize_route\<close> answers with status 400 and the message
  \<^verbatim>\<open>Need at least 2 points\<close>, and \<open>current_counts\<close> is as it was, whatever the arithmetic.
\<close>

theorem optimize_route_rejects_short:
  "length (case d of None \<Rightarrow> [] | Some ls \<Rightarrow> ls) < 2 \<Longrightarrow>
   optimize_route fl d cc = (Rejected 400 ''Need at least 2 points'', cc)"
  by (simp add: optimize_route_def)

text \<open>The theorem at the single location (0, 0).\<close>

theorem optimize_route_rejects_short_witness:
  "length (case Some [\<lparr>lat = 0, lng = 0\<rparr>] of None \<Rightarrow> [] | Some ls \<Rightarrow> ls) < 2 \<and>
   optimize_route exact (Some [\<lparr>lat = 0, lng = 0\<rparr>]) current_counts =
     (Rejected 400 ''Need at least 2 points'', current_counts)"
  using optimize_route_rejects_short [of "Some [\<lparr>lat = 0, lng = 0\<rparr>]" exact current_counts]
  by simp




text \<open>
  Nor is the percentage 31.03 when the distance is out of range. At the locations (0, 0)
  and (1.3e154, 1.3e154) each square is a float and their sum is not: the distance, the
  total and both emissions are \<^verbatim>\<open>inf\<close>, their difference is NaN, which \<^verbatim>\<open>max(0.0, nan)\<close> turns
  into the saving 0.0, and the percentage is \<^verbatim>\<open>0.0 / inf * 100.0\<close>, that is 0.0.
\<close>

lemma optimize_route_percent_inf:
  "optimize_route unrounded
     (Some [\<lparr>lat = Fin 0, lng = Fin 0\<rparr>,
            \<lparr>lat = Fin (13 * 10 ^ 153), lng = Fin (13 * 10 ^ 153)\<rparr>]) current_counts =
     (Ok \<lparr>optimized_route =
            [\<lparr>lat = Fin 0, lng = Fin 0\<rparr>,
             \<lparr>lat = Fin (13 * 10 ^ 153), lng = Fin (13 * 10 ^ 153)\<rparr>],
          logs = [Optimization_Started, Connected_to_nearest_node_at (Fin (13 * 10 ^ 153))],
          stats = \<lparr>total_distance_km = PInf, optimized = PInf, baseline = PInf,
                    saved = Fin 0, percent = Fin 0\<rparr>\<rparr>, current_counts)"
  by (simp add: optimize_route_def Let_def total_degrees_def get_dist_def unrounded_ops
      calculate_emissions_def EMISSION_FACTORS_def py_max_def fin_def)

text \<open>
  Claim C10. Whenever \<open>calculate_manual\<close> answers with a result, its \<open>savings_kg\<close> is
  \<open>max 0 (baseline_kg - emission_kg)\<close> and is not negative, and it is 0 when the mode of
  the body is air. Whenever \<open>optimize_route\<close> answers with a result, its \<open>saved\<close> is
  \<^verbatim>\<open>max(0.0, baseline - optimized)\<close>, which is 0.0 or a float greater than 0.0, whatever
  the arithmetic; in the exact arithmetic it is \<open>max 0 (baseline - optimized)\<close> and is not
  negative.
\<close>

theorem savings_nonnegative:
  "(calculate_manual sf body cc = (Ok r, cc') \<longrightarrow>
      savings_kg r = max 0 (baseline_kg r - emission_kg r) \<and> 0 \<le> savings_kg r) \<and>
   (calculate_manual sf (JObj kvs) cc = (Ok r, cc') \<and>
    map_of kvs ''mode'' = Some (JStr ''air'') \<longrightarrow> savings_kg r = 0) \<and>
   (optimize_route fl d cc = (Ok r2, cc') \<longrightarrow>
      saved (stats r2) =
        py_max fl (f_lit fl 0) (f_sub fl (baseline (stats r2)) (optimized (stats r2))) \<and>
      (saved (stats r2) = f_lit fl 0 \<or> f_less fl (f_lit fl 0) (saved (stats r2)))) \<and>
   (optimize_route exact d' cc = (Ok r3, cc') \<longrightarrow>
      saved (stats r3) = max 0 (baseline (stats r3) - optimized (stats r3)) \<and>
      0 \<le> saved (stats r3))"
proof (intro conjI impI)
  assume "calculate_manual sf body cc = (Ok r, cc')"
  then show "savings_kg r = max 0 (baseline_kg r - emission_kg r)"
    by (auto simp: calculate_manual_def Let_def split: sum.splits)
  then show "0 \<le> savings_kg r" by simp
next
  assume "calculate_manual sf (JObj kvs) cc = (Ok r, cc') \<and>
    map_of kvs ''mode'' = Some (JStr ''air'')"
  then show "savings_kg r = 0"
    by (auto simp: calculate_manual_def calculate_emissions_str Let_def
        split: sum.splits if_splits)
next
  assume "optimize_route fl d cc = (Ok r2, cc')"
  then show s: "saved (stats r2) =
        py_max fl (f_lit fl 0) (f_sub fl (baseline (stats r2)) (optimized (stats r2)))"
    by (elim optimize_route_OkE)
  show "saved (stats r2) = f_lit fl 0 \<or> f_less fl (f_lit fl 0) (saved (stats r2))"
    unfolding s by (simp add: py_max_def)
next
  assume "optimize_route exact d' cc = (Ok r3, cc')"
  then have "saved (stats r3) =
        py_max exact (f_lit exact 0) (f_sub exact (baseline (stats r3)) (optimized (stats r3)))"
    by (elim optimize_route_OkE)
  then show "saved (stats r3) = max 0 (baseline (stats r3) - optimized (stats r3))"
    by (simp add: py_max_def exact_ops max_def)
  then show "0 \<le> saved (stats r3)" by simp
qed

text \<open>
  The theorem at a body with the mode air (savings 0) and at the route through (0, 0) and
  (0, 1) in the exact arithmetic (saved 3.996).
\<close>

theorem savings_nonnegative_witness:
  "calculate_manual Map.empty
     (JObj [(''distance'', JNum 100), (''weight'', JNum 1000), (''mode'', JStr ''air'')])
     current_counts =
     (Ok \<lparr>emission_kg = 50, baseline_kg = 50, savings_kg = 0\<rparr>, current_counts) \<and>
   map_of [(''distance'', JNum 100), (''weight'', JNum 1000), (''mode'', JStr ''air'')] ''mode''
     = Some (JStr ''air'') \<and>
   savings_kg \<lparr>emission_kg = 50, baseline_kg = 50, savings_kg = 0\<rparr> = 0 \<and>
   optimize_route exact (Some [\<lparr>lat = 0, lng = 0\<rparr>, \<lparr>lat = 0, lng = 1\<rparr>]) current_counts =
     (Ok \<lparr>optimized_route = [\<lparr>lat = 0, lng = 0\<rparr>, \<lparr>lat = 0, lng = 1\<rparr>],
          logs = [Optimization_Started, Connected_to_nearest_node_at 0],
          stats = \<lparr>total_distance_km = 111, optimized = 8.88, baseline = 12.876,
                    saved = 3.996, percent = 900 / 29\<rparr>\<rparr>, current_counts) \<and>
   f_less exact (f_lit exact 0) 3.996 \<and>
   (0 :: real) \<le> 3.996"
proof -
  have e1: "calculate_manual Map.empty
     (JObj [(''distance'', JNum 100), (''weight'', JNum 1000), (''mode'', JStr ''air'')])
     current_counts =
     (Ok \<lparr>emission_kg = 50, baseline_kg = 50, savings_kg = 0\<rparr>, current_counts)"
    by (simp add: calculate_manual_def calculate_emissions_str)
  have e2: "optimize_route exact (Some [\<lparr>lat = 0, lng = 0\<rparr>, \<lparr>lat = 0, lng = 1\<rparr>])
      current_counts =
     (Ok \<lparr>optimized_route = [\<lparr>lat = 0, lng = 0\<rparr>, \<lparr>lat = 0, lng = 1\<rparr>],
          logs = [Optimization_Started, Connected_to_nearest_node_at 0],
          stats = \<lparr>total_distance_km = 111, optimized = 8.88, baseline = 12.876,
                    saved = 3.996, percent = 900 / 29\<rparr>\<rparr>, current_counts)"
    by (simp add: optimize_route_def Let_def total_degrees_def get_dist_exact
        calculate_emissions_str exact_ops py_max_def)
  have e3: "f_less exact (f_lit exact 0) 3.996"
    by (simp add: exact_ops)
  show ?thesis
    using savings_nonnegative
      [of Map.empty
          "JObj [(''distance'', JNum 100), (''weight'', JNum 1000), (''mode'', JStr ''air'')]"
          current_counts "\<lparr>emission_kg = 50, baseline_kg = 50, savings_kg = 0\<rparr>"
          current_counts
          "[(''distance'', JNum 100), (''weight'', JNum 1000), (''mode'', JStr ''air'')]"
          exact
          "Some [\<lparr>lat = 0, lng = 0\<rparr>, \<lparr>lat = 0, lng = 1\<rparr>]"
          "\<lparr>optimized_route = [\<lparr>lat = 0, lng = 0\<rparr>, \<lparr>lat = 0, lng = 1\<rparr>],
            logs = [Optimization_Started, Connected_to_nearest_node_at 0],
            stats = \<lparr>total_distance_km = 111, optimized = 8.88, baseline = 12.876,
                      saved = 3.996, percent = 900 / 29\<rparr>\<rparr>"
          "Some [\<lparr>lat = 0, lng = 0\<rparr>, \<lparr>lat = 0, lng = 1\<rparr>]"
          "\<lparr>optimized_route = [\<lparr>lat = 0, lng = 0\<rparr>, \<lparr>lat = 0, lng = 1\<rparr>],
            logs = [Optimization_Started, Connected_to_nearest_node_at 0],
            stats = \<lparr>total_distance_km = 111, optimized = 8.88, baseline = 12.876,
                      saved = 3.996, percent = 900 / 29\<rparr>\<rparr>"]
      e1 e2 e3
    by simp
qed

end
